theory Spec2Isabelle
  imports Complex_Main
begin

section \<open>JavaScript string operations used by the services\<close>

text \<open>
  A JavaScript string is modelled as a \<open>string\<close>, each \<open>char\<close> standing for one code unit
  below 256. The operations below are the library calls the services make on strings:
  \<open>trim\<close>, \<open>split\<close>, \<open>toLowerCase\<close> and \<open>padStart\<close>.
\<close>

definition is_space :: "char \<Rightarrow> bool" where
  "is_space c = (of_char c \<in> {9, 10, 11, 12, 13, 32, 160 :: nat})"

definition trim :: "string \<Rightarrow> string" where
  "trim s = rev (dropWhile is_space (rev (dropWhile is_space s)))"

text \<open>\<open>s.split(d)\<close> for a one-character separator: never empty, \<open>''''.split(d) = ['''']\<close>.\<close>

fun split_js :: "char \<Rightarrow> string \<Rightarrow> string list" where
  "split_js d [] = [[]]"
| "split_js d (c # cs) =
     (if c = d then [] # split_js d cs
      else (case split_js d cs of [] \<Rightarrow> [[c]] | p # ps \<Rightarrow> (c # p) # ps))"

definition toLowerCase_char :: "char \<Rightarrow> char" where
  "toLowerCase_char c =
     (let n = (of_char c :: nat)
      in if (65 \<le> n \<and> n \<le> 90) \<or> (192 \<le> n \<and> n \<le> 222 \<and> n \<noteq> 215)
         then char_of (n + 32) else c)"

definition toLowerCase :: "string \<Rightarrow> string" where
  "toLowerCase s = map toLowerCase_char s"

definition padStart :: "nat \<Rightarrow> char \<Rightarrow> string \<Rightarrow> string" where
  "padStart n c s = replicate (n - length s) c @ s"

text \<open>
  \<open>String(n)\<close> and \<open>${n}\<close> are the platform's conversion of a number to text (decimal
  digits, a fraction, exponent notation from \<open>1e21\<close>): every function that writes a number
  into the ledger takes it as the argument \<open>N\<close>.
\<close>

section \<open>state.js: the system state singleton\<close>

datatype status = Active | Paused | Frozen

text \<open>
  The record \<open>_state\<close>. A JavaScript number that holds an amount is modelled by the
  real number it denotes: comparisons are exact, and the subtraction of \<open>deduct\<close> is exact
  wherever the difference is again a double, as for whole rupees and their halves;
  the rounding of other fractions is not modelled. The counter only ever grows from 0
  by steps of one, so it is a \<open>nat\<close>.
\<close>

record sys_state =
  status :: status
  budget :: real
  transactionCount :: nat
  initialBudget :: real

definition INITIAL_BUDGET :: real where
  "INITIAL_BUDGET = 1000000"

definition initial_state :: sys_state where
  "initial_state = \<lparr>status = Active, budget = INITIAL_BUDGET, transactionCount = 0,
                     initialBudget = INITIAL_BUDGET\<rparr>"

definition getState :: "sys_state \<Rightarrow> sys_state" where
  "getState s = s"

definition pause :: "sys_state \<Rightarrow> sys_state" where
  "pause s = (if status s = Active then s\<lparr>status := Paused\<rparr> else s)"

definition resume :: "sys_state \<Rightarrow> sys_state" where
  "resume s = (if status s = Paused then s\<lparr>status := Active\<rparr> else s)"

definition freeze :: "sys_state \<Rightarrow> sys_state" where
  "freeze s = s\<lparr>status := Frozen\<rparr>"

definition deduct :: "real \<Rightarrow> sys_state \<Rightarrow> sys_state" where
  "deduct amount s =
     (let s1 = s\<lparr>budget := budget s - amount\<rparr>
      in if budget s1 \<le> 0 then freeze (s1\<lparr>budget := 0\<rparr>) else s1)"

definition incrTx :: "sys_state \<Rightarrow> sys_state" where
  "incrTx s = s\<lparr>transactionCount := transactionCount s + 1\<rparr>"

text \<open>The operations of the module as data, to speak about any one of them.\<close>

datatype state_op = Pause | Resume | Freeze | Deduct real | IncrTx

fun apply_state_op :: "state_op \<Rightarrow> sys_state \<Rightarrow> sys_state" where
  "apply_state_op Pause s = pause s"
| "apply_state_op Resume s = resume s"
| "apply_state_op Freeze s = freeze s"
| "apply_state_op (Deduct a) s = deduct a s"
| "apply_state_op IncrTx s = incrTx s"

fun positive_op :: "state_op \<Rightarrow> bool" where
  "positive_op (Deduct a) = (0 < a)"
| "positive_op _ = True"

section \<open>ledger.js: the hash-linked ledger\<close>

text \<open>
  \<open>crypto.createHash('sha256')\<close> is a library of the platform, not code of the repository:
  every function that hashes takes the digest \<open>H\<close> (string to lowercase hex string) as its
  first argument. \<open>sha256(...parts)\<close> joins its arguments and digests the result.
\<close>

definition sha256 :: "(string \<Rightarrow> string) \<Rightarrow> string list \<Rightarrow> string" where
  "sha256 H parts = H (concat parts)"

definition GENESIS_HASH :: string where
  "GENESIS_HASH = replicate 64 CHR ''0''"

text \<open>
  What \<open>loadMeta()\<close> can return, as far as \<open>verifyIntegrity\<close> looks at it. A falsy
  value (null when ledger_meta.json is absent or does not parse, or a parsed null, false,
  0 or empty string) is \<open>None\<close>. A truthy value is \<open>Some (FileHash h)\<close> when its
  \<open>fileHash\<close> is the string \<open>h\<close>, and \<open>Some NoFileHash\<close> otherwise: its \<open>fileHash\<close> is
  undefined or not a string (as for \<open>{}\<close>), and \<open>!==\<close> holds between it and every digest.
\<close>

datatype meta = NoFileHash | FileHash string

text \<open>\<open>meta.fileHash !== actualFileHash\<close>\<close>

fun fileHash_differs :: "meta \<Rightarrow> string \<Rightarrow> bool" where
  "fileHash_differs NoFileHash actualFileHash = True"
| "fileHash_differs (FileHash h) actualFileHash = (h \<noteq> actualFileHash)"

text \<open>
  The module's variables \<open>lastHash\<close> and \<open>initialized\<close>, and the two files it owns:
  \<open>ledger_file\<close> is the text of ledger.txt (\<open>None\<close>: the file does not exist),
  \<open>meta_file\<close> is what \<open>loadMeta()\<close> reads from ledger_meta.json.
\<close>

record ledger_state =
  lastHash :: string
  initialized :: bool
  ledger_file :: "string option"
  meta_file :: "meta option"

definition computeFileHash :: "(string \<Rightarrow> string) \<Rightarrow> ledger_state \<Rightarrow> string" where
  "computeFileHash H l =
     (case ledger_file l of None \<Rightarrow> GENESIS_HASH | Some content \<Rightarrow> sha256 H [content])"

definition saveMeta :: "string \<Rightarrow> ledger_state \<Rightarrow> ledger_state" where
  "saveMeta fileHash l = l\<lparr>meta_file := Some (FileHash fileHash)\<rparr>"

definition loadMeta :: "ledger_state \<Rightarrow> meta option" where
  "loadMeta l = meta_file l"

text \<open>The whole state the services share: state.js, ledger.js and the validator's set.\<close>

record world =
  state :: sys_state
  ledger :: ledger_state
  processedHashes :: "string set"

text \<open>\<open>content.split('\n').map(l => l.trim()).filter(Boolean)\<close>\<close>

definition read_lines :: "string \<Rightarrow> string list" where
  "read_lines content = filter (\<lambda>l. l \<noteq> []) (map trim (split_js (CHR 0x0A) content))"

text \<open>
  The loop of \<open>verifyIntegrity\<close> over the lines, from the running hash \<open>prevHash\<close>:
  \<open>None\<close> when a line is malformed or breaks the chain (the loop returns there),
  otherwise the running hash after the last line.
\<close>

fun walk_chain :: "(string \<Rightarrow> string) \<Rightarrow> string list \<Rightarrow> string \<Rightarrow> string option" where
  "walk_chain H [] prevHash = Some prevHash"
| "walk_chain H (l # ls) prevHash =
     (let parts = split_js (CHR ''|'') l in
      if length parts \<noteq> 6 then None
      else
        let timestamp = parts ! 0; citizenHash = parts ! 1; schemeName = parts ! 2;
            amountText = parts ! 3; storedPrevHash = parts ! 4; storedCurrHash = parts ! 5;
            expectedCurrHash =
              sha256 H [timestamp, citizenHash, schemeName, amountText, storedPrevHash]
        in if storedPrevHash \<noteq> prevHash \<or> storedCurrHash \<noteq> expectedCurrHash then None
           else walk_chain H ls storedCurrHash)"

definition verifyIntegrity :: "(string \<Rightarrow> string) \<Rightarrow> world \<Rightarrow> bool \<times> world" where
  "verifyIntegrity H w =
     (case ledger_file (ledger w) of
        None \<Rightarrow> (True, w\<lparr>ledger := (ledger w)\<lparr>initialized := True\<rparr>\<rparr>)
      | Some content \<Rightarrow>
          let meta = loadMeta (ledger w);
              actualFileHash = computeFileHash H (ledger w)
          in if (case meta of None \<Rightarrow> False | Some m \<Rightarrow> fileHash_differs m actualFileHash)
             then (False, w\<lparr>state := freeze (state w)\<rparr>)
             else (case walk_chain H (read_lines content) GENESIS_HASH of
                     None \<Rightarrow> (False, w\<lparr>state := freeze (state w)\<rparr>)
                   | Some prevHash \<Rightarrow>
                       (True, w\<lparr>ledger := (ledger w)\<lparr>lastHash := prevHash,
                                                       initialized := True\<rparr>\<rparr>)))"

text \<open>
  The two writes of \<open>append\<close> can throw: \<open>fs.appendFileSync\<close> on ledger.txt and
  \<open>fs.writeFileSync\<close> on ledger_meta.json. Which of them fails, if any, is an input of the
  model; a failed write leaves its file as it was, and the exception leaves \<open>append\<close> with
  the state reached so far.
\<close>

datatype fs_fault = NoFault | AppendFileFails | WriteFileFails

datatype error = WriteError

definition entry_line :: "string \<Rightarrow> string \<Rightarrow> string \<Rightarrow> string \<Rightarrow> string \<Rightarrow> string \<Rightarrow> string" where
  "entry_line timestamp citizenHash schemeName amountText prevHash currentHash =
     timestamp @ ''|'' @ citizenHash @ ''|'' @ schemeName @ ''|'' @ amountText @ ''|''
       @ prevHash @ ''|'' @ currentHash @ [CHR 0x0A]"

text \<open>
  \<open>append({citizenHash, scheme, amount})\<close> of ledger.js, here \<open>ledger_append\<close> (in HOL
  \<open>append\<close> is the concatenation of lists); \<open>nowIso\<close> is \<open>new Date().toISOString()\<close>.
  The result is the pair \<open>(timestamp, currentHash)\<close>.
\<close>

definition ledger_append ::
  "(string \<Rightarrow> string) \<Rightarrow> (real \<Rightarrow> string) \<Rightarrow> string \<Rightarrow> fs_fault \<Rightarrow> string \<Rightarrow> string
     \<Rightarrow> real \<Rightarrow> world
     \<Rightarrow> (error + string \<times> string) \<times> world" where
  "ledger_append H N nowIso fault citizenHash schemeName amt w =
     (let w1 = (if \<not> initialized (ledger w) then snd (verifyIntegrity H w) else w);
          timestamp = nowIso;
          prevHash = lastHash (ledger w1);
          currentHash = sha256 H [timestamp, citizenHash, schemeName, N amt, prevHash];
          line = entry_line timestamp citizenHash schemeName (N amt) prevHash currentHash
      in if fault = AppendFileFails then (Inl WriteError, w1)
         else
           let old = (case ledger_file (ledger w1) of None \<Rightarrow> [] | Some content \<Rightarrow> content);
               w2 = w1\<lparr>ledger := (ledger w1)\<lparr>ledger_file := Some (old @ line)\<rparr>\<rparr>;
               w3 = w2\<lparr>ledger := (ledger w2)\<lparr>lastHash := currentHash\<rparr>\<rparr>;
               fileHash = computeFileHash H (ledger w3)
           in if fault = WriteFileFails then (Inl WriteError, w3)
              else (Inr (timestamp, currentHash), w3\<lparr>ledger := saveMeta fileHash (ledger w3)\<rparr>))"

section \<open>registry.js: the lookup interface\<close>

record registry_record =
  account_status :: string
  aadhaar_linked :: bool
  scheme_eligibility :: string
  scheme_amount :: real
  last_claim_date :: "int option"
  claim_count :: int
  income_tier :: string
  region_code :: string

definition hashCitizenId :: "(string \<Rightarrow> string) \<Rightarrow> string \<Rightarrow> string" where
  "hashCitizenId H rawId = H (padStart 12 (CHR ''0'') (trim rawId))"

definition lookup :: "(string \<rightharpoonup> registry_record) \<Rightarrow> string \<Rightarrow> registry_record option" where
  "lookup registryMap h = registryMap h"

section \<open>validator.js: the five gates\<close>

datatype gate = Input | System | Replay | Eligibility | Budget | Frequency | Approved

text \<open>
  The reason of a decision is one of the message templates of the source; a constructor
  carries the values that its template interpolates, in the order of the template.
\<close>

datatype reason =
    MissingFields
  | InvalidFormat
  | SystemFrozen
  | SystemPaused
  | DuplicateClaim
  | NotFound
  | NotActive string
  | NotLinked
  | SchemeMismatch string string
  | LimitExceeded int
  | BudgetExhausted
  | InsufficientBudget real real
  | FrequencyViolation int int
  | AllPassed

record decision =
  approved :: bool
  gate :: gate
  reason :: reason
  amount :: "real option"
  scheme :: "string option"
  timestamp :: "string option"

definition reject :: "gate \<Rightarrow> reason \<Rightarrow> decision" where
  "reject g r = \<lparr>approved = False, gate = g, reason = r,
                 amount = None, scheme = None, timestamp = None\<rparr>"

text \<open>
  What a call reads from outside the process: the clock in milliseconds at gate 5, the
  ISO text of the clock at the append, and the fault of the file system.
\<close>

record env =
  now_ms :: int
  now_iso :: string
  fault :: fs_fault

definition DAY_MS :: int where
  "DAY_MS = 1000 * 60 * 60 * 24"

text \<open>
  Gate 5. \<open>diffDays\<close> is the quotient of two whole numbers of milliseconds by \<open>DAY_MS\<close>;
  \<open>diffDays < 30\<close>, \<open>Math.floor(diffDays)\<close> and \<open>Math.ceil(30 - diffDays)\<close> are written on
  the whole numbers.
\<close>

definition frequency_gate :: "int \<Rightarrow> registry_record \<Rightarrow> decision option" where
  "frequency_gate now r =
     (case last_claim_date r of
        None \<Rightarrow> None
      | Some lastClaim \<Rightarrow>
          if now - lastClaim < 30 * DAY_MS
          then Some (reject Frequency
                 (FrequencyViolation ((now - lastClaim) div DAY_MS)
                                     (30 - (now - lastClaim) div DAY_MS)))
          else None)"

definition validate ::
  "(string \<Rightarrow> string) \<Rightarrow> (real \<Rightarrow> string) \<Rightarrow> (string \<rightharpoonup> registry_record) \<Rightarrow> env
     \<Rightarrow> string \<Rightarrow> string \<Rightarrow> world
     \<Rightarrow> (error + decision) \<times> world" where
  "validate H N registryMap e citizenId schemeName w =
     (let citizenHash = hashCitizenId H citizenId;
          s = getState (state w)
      in if status s = Frozen then (Inr (reject System SystemFrozen), w)
         else if status s = Paused then (Inr (reject System SystemPaused), w)
         else if citizenHash \<in> processedHashes w then (Inr (reject Replay DuplicateClaim), w)
         else
           (case lookup registryMap citizenHash of
              None \<Rightarrow> (Inr (reject Eligibility NotFound), w)
            | Some r \<Rightarrow>
                if toLowerCase (account_status r) \<noteq> ''active''
                then (Inr (reject Eligibility (NotActive (account_status r))), w)
                else if \<not> aadhaar_linked r
                then (Inr (reject Eligibility NotLinked), w)
                else if toLowerCase (scheme_eligibility r) \<noteq> toLowerCase (trim schemeName)
                then (Inr (reject Eligibility
                        (SchemeMismatch (scheme_eligibility r) schemeName)), w)
                else if claim_count r > 3
                then (Inr (reject Eligibility (LimitExceeded (claim_count r))), w)
                else
                  let amt = scheme_amount r
                  in if budget s \<le> 0
                     then (Inr (reject Budget BudgetExhausted), w\<lparr>state := freeze (state w)\<rparr>)
                     else if budget s < amt
                     then (Inr (reject Budget (InsufficientBudget (budget s) amt)), w)
                     else
                       (case frequency_gate (now_ms e) r of
                          Some d \<Rightarrow> (Inr d, w)
                        | None \<Rightarrow>
                            let w1 = w\<lparr>state := incrTx (deduct amt (state w))\<rparr>;
                                w2 = w1\<lparr>processedHashes :=
                                          insert citizenHash (processedHashes w1)\<rparr>
                            in (case ledger_append H N (now_iso e) (fault e) citizenHash schemeName amt w2 of
                                  (Inl err, w3) \<Rightarrow> (Inl err, w3)
                                | (Inr ledgerEntry, w3) \<Rightarrow>
                                    (Inr \<lparr>approved = True, gate = Approved, reason = AllPassed,
                                          amount = Some amt, scheme = Some schemeName,
                                          timestamp = Some (fst ledgerEntry)\<rparr>, w3)))))"

text \<open>
  The conditions under which a claim gets past gate 3, and past all five gates: the
  negations of the tests of \<open>validate\<close>, in its order.
\<close>

definition eligible :: "registry_record \<Rightarrow> string \<Rightarrow> bool" where
  "eligible r schemeName =
     (toLowerCase (account_status r) = ''active'' \<and> aadhaar_linked r
      \<and> toLowerCase (scheme_eligibility r) = toLowerCase (trim schemeName)
      \<and> \<not> claim_count r > 3)"

definition gates_pass ::
  "(string \<Rightarrow> string) \<Rightarrow> (string \<rightharpoonup> registry_record) \<Rightarrow> env \<Rightarrow> string \<Rightarrow> string \<Rightarrow> world
     \<Rightarrow> registry_record \<Rightarrow> bool" where
  "gates_pass H registryMap e citizenId schemeName w r =
     (status (state w) = Active
      \<and> hashCitizenId H citizenId \<notin> processedHashes w
      \<and> lookup registryMap (hashCitizenId H citizenId) = Some r
      \<and> eligible r schemeName
      \<and> \<not> budget (state w) \<le> 0 \<and> \<not> budget (state w) < scheme_amount r
      \<and> frequency_gate (now_ms e) r = None)"

section \<open>routes/claim.js: POST /api/claim\<close>

text \<open>
  The body fields are strings, the empty string standing for a missing or falsy field.
  The answer is the HTTP status with the decision object sent; an exception of the
  validator is the error.
\<close>

definition is_digit :: "char \<Rightarrow> bool" where
  "is_digit c = (c \<in> set ''0123456789'')"

definition claim_route ::
  "(string \<Rightarrow> string) \<Rightarrow> (real \<Rightarrow> string) \<Rightarrow> (string \<rightharpoonup> registry_record) \<Rightarrow> env
     \<Rightarrow> string \<Rightarrow> string \<Rightarrow> world
     \<Rightarrow> (error + nat \<times> decision) \<times> world" where
  "claim_route H N registryMap e citizen_id schemeBody w =
     (if citizen_id = [] \<or> schemeBody = [] then (Inr (400, reject Input MissingFields), w)
      else
        let cidStr = trim citizen_id
        in if \<not> (length cidStr = 12 \<and> list_all is_digit cidStr)
           then (Inr (400, reject Input InvalidFormat), w)
           else (case validate H N registryMap e cidStr (trim schemeBody) w of
                   (Inl err, w') \<Rightarrow> (Inl err, w')
                 | (Inr result, w') \<Rightarrow> (Inr (200, result), w')))"

section \<open>The chain of entries, in the words of the specification\<close>

text \<open>
  The six fields of a line, and the condition of the specification on entry \<open>i\<close> of a
  sequence of entries that starts from the hash \<open>g\<close>: it has six fields, its
  previousEntryHash (field 4) is the currentEntryHash (field 5) of its predecessor, or
  \<open>g\<close> for the first entry, and its currentEntryHash is the digest of its own four
  fields joined with its declared previousEntryHash.
\<close>

definition entry_fields :: "string \<Rightarrow> string list" where
  "entry_fields l = split_js (CHR ''|'') l"

definition spec_entry_ok :: "(string \<Rightarrow> string) \<Rightarrow> string \<Rightarrow> string list list \<Rightarrow> nat \<Rightarrow> bool" where
  "spec_entry_ok H g es i =
     (length (es ! i) = 6
      \<and> es ! i ! 4 = (if i = 0 then g else es ! (i - 1) ! 5)
      \<and> es ! i ! 5 = H (concat (take 5 (es ! i))))"

definition spec_chain_ok :: "(string \<Rightarrow> string) \<Rightarrow> string \<Rightarrow> string list list \<Rightarrow> bool" where
  "spec_chain_ok H g es = list_all (spec_entry_ok H g es) [0..<length es]"

definition spec_final_hash :: "string \<Rightarrow> string list list \<Rightarrow> string" where
  "spec_final_hash g es = (if es = [] then g else last es ! 5)"

text \<open>A run of appends whose writes succeed, each with its clock text and its entry.\<close>

type_synonym entry_args = "string \<times> string \<times> string \<times> real"

fun run_appends ::
  "(string \<Rightarrow> string) \<Rightarrow> (real \<Rightarrow> string) \<Rightarrow> entry_args list \<Rightarrow> world \<Rightarrow> world" where
  "run_appends H N [] w = w"
| "run_appends H N ((nowIso, citizenHash, schemeName, amt) # es) w =
     run_appends H N es (snd (ledger_append H N nowIso NoFault citizenHash schemeName amt w))"

section \<open>A process at start, and a small digest to run the definitions\<close>

definition fresh_ledger :: "string option \<Rightarrow> meta option \<Rightarrow> ledger_state" where
  "fresh_ledger file meta =
     \<lparr>lastHash = GENESIS_HASH, initialized = False, ledger_file = file, meta_file = meta\<rparr>"

definition fresh_world :: "string option \<Rightarrow> meta option \<Rightarrow> world" where
  "fresh_world file meta =
     \<lparr>state = initial_state, ledger = fresh_ledger file meta, processedHashes = {}\<rparr>"

text \<open>
  A stand-in for the digest, used only where a theorem is run on a concrete input: the
  sum of the code units modulo 256, as two hex digits.
\<close>

definition hex_digit :: "nat \<Rightarrow> char" where
  "hex_digit n = ''0123456789abcdef'' ! n"

definition demo_hash :: "string \<Rightarrow> string" where
  "demo_hash s =
     (let n = sum_list (map of_char s) mod (256 :: nat)
      in [hex_digit (n div 16), hex_digit (n mod 16)])"

text \<open>
  A stand-in for the conversion of a number to text: the decimal digits of the whole
  part of a non-negative number, which is the text JavaScript gives for the whole
  amounts below \<open>1e21\<close> of the inputs below.
\<close>

definition digit_char :: "nat \<Rightarrow> char" where
  "digit_char n = ''0123456789'' ! n"

fun digits :: "nat \<Rightarrow> string" where
  "digits n = (if n < 10 then [digit_char n] else digits (n div 10) @ [digit_char (n mod 10)])"

declare digits.simps [simp del]

definition demo_number :: "real \<Rightarrow> string" where
  "demo_number r = digits (nat \<lfloor>r\<rfloor>)"

text \<open>A registry of one record, a clock and worlds on which the theorems are run.\<close>

definition demo_id :: string where
  "demo_id = ''123456789012''"

definition demo_record :: "string \<Rightarrow> real \<Rightarrow> registry_record" where
  "demo_record s a =
     \<lparr>account_status = ''Active'', aadhaar_linked = True, scheme_eligibility = s,
      scheme_amount = a, last_claim_date = None, claim_count = 0,
      income_tier = ''Low'', region_code = ''R1''\<rparr>"

definition demo_registry :: "registry_record \<Rightarrow> (string \<rightharpoonup> registry_record)" where
  "demo_registry r = [hashCitizenId demo_hash demo_id \<mapsto> r]"

text \<open>A second identity, with another token, and a registry holding the record for both.\<close>

definition demo_other_id :: string where
  "demo_other_id = ''000000000001''"

definition demo_registry2 :: "registry_record \<Rightarrow> (string \<rightharpoonup> registry_record)" where
  "demo_registry2 r = (demo_registry r)(hashCitizenId demo_hash demo_other_id \<mapsto> r)"

definition demo_env :: "fs_fault \<Rightarrow> env" where
  "demo_env f =
     \<lparr>now_ms = 1767225600000, now_iso = ''2026-01-01T00:00:00.000Z'', fault = f\<rparr>"

definition demo_world :: "sys_state \<Rightarrow> string set \<Rightarrow> world" where
  "demo_world s done = \<lparr>state = s, ledger = fresh_ledger None None, processedHashes = done\<rparr>"

section \<open>Well-formed ledger files and entries\<close>

text \<open>
  A field is plain when it holds neither the separator nor a line feed. The digest
  yields hex strings and the clock ISO texts; a clean entry has an ISO clock text and a
  plain token and scheme name. \<open>ledger_lines\<close> is the text of a file whose lines are each
  ended by a line feed, and a tidy line is one that \<open>read_lines\<close> gives back unchanged.
\<close>

definition plain :: "string \<Rightarrow> bool" where
  "plain s = (CHR ''|'' \<notin> set s \<and> CHR 0x0A \<notin> set s)"

definition hex_string :: "string \<Rightarrow> bool" where
  "hex_string s = (s \<noteq> [] \<and> set s \<subseteq> set ''0123456789abcdef'')"

definition iso_text :: "string \<Rightarrow> bool" where
  "iso_text s = (s \<noteq> [] \<and> set s \<subseteq> set ''0123456789-+:.TZ'')"

fun clean_entry :: "entry_args \<Rightarrow> bool" where
  "clean_entry (nowIso, citizenHash, schemeName, amt) =
     (iso_text nowIso \<and> plain citizenHash \<and> plain schemeName)"

definition ledger_lines :: "string list \<Rightarrow> string" where
  "ledger_lines ls = concat (map (\<lambda>l. l @ [CHR 0x0A]) ls)"

definition tidy_line :: "string \<Rightarrow> bool" where
  "tidy_line l = (l \<noteq> [] \<and> CHR 0x0A \<notin> set l \<and> \<not> is_space (hd l) \<and> \<not> is_space (last l))"

definition consistent :: "(string \<Rightarrow> string) \<Rightarrow> world \<Rightarrow> bool" where
  "consistent H w =
     (case ledger_file (ledger w) of
        None \<Rightarrow> lastHash (ledger w) = GENESIS_HASH
      | Some content \<Rightarrow>
          (\<exists>ls h. content = ledger_lines ls \<and> list_all tidy_line ls
                \<and> walk_chain H ls GENESIS_HASH = Some h
                \<and> (initialized (ledger w) \<longrightarrow> lastHash (ledger w) = h)
                \<and> (meta_file (ledger w) = None \<or> meta_file (ledger w) = Some (FileHash (H content)))))"

text \<open>The entry and the ledger left by an approved claim for the scheme \<open>Food|Health\<close>.\<close>

definition bar_text :: string where
  "bar_text =
     ''2026-01-01T00:00:00.000Z|70|Food|Health|5000|0000000000000000000000000000000000000000000000000000000000000000|6c\<newline>''"

definition bar_ledger :: ledger_state where
  "bar_ledger = \<lparr>lastHash = ''6c'', initialized = True, ledger_file = Some bar_text,
                  meta_file = Some (FileHash ''7b'')\<rparr>"

definition demo_entries :: "entry_args list" where
  "demo_entries = [(''2026-01-01T00:00:00.000Z'', ''70'', ''Food'', 5000)]"

definition demo_text :: string where
  "demo_text =
     ''2026-01-01T00:00:00.000Z|70|Food|5000|0000000000000000000000000000000000000000000000000000000000000000|9a\<newline>''"

section \<open>What the ledger calls leave untouched, and the approval path\<close>

lemma verify_keeps:
  "budget (state (snd (verifyIntegrity H w))) = budget (state w)"
  "transactionCount (state (snd (verifyIntegrity H w))) = transactionCount (state w)"
  "processedHashes (snd (verifyIntegrity H w)) = processedHashes w"
  "ledger_file (ledger (snd (verifyIntegrity H w))) = ledger_file (ledger w)"
  "meta_file (ledger (snd (verifyIntegrity H w))) = meta_file (ledger w)"
  "status (state w) = Frozen \<Longrightarrow> status (state (snd (verifyIntegrity H w))) = Frozen"
  by (auto simp: verifyIntegrity_def Let_def freeze_def split: option.splits)

lemma append_fails:
  "ledger_append H N nowIso AppendFileFails citizenHash schemeName amt w =
     (Inl WriteError, if \<not> initialized (ledger w) then snd (verifyIntegrity H w) else w)"
  by (simp add: ledger_append_def Let_def)

lemma verify_ledger_only:
  "ledger (snd (verifyIntegrity H (w\<lparr>state := s, processedHashes := p\<rparr>)))
     = ledger (snd (verifyIntegrity H w))"
  by (simp add: verifyIntegrity_def Let_def split: option.splits)

lemma append_write_fails:
  "ledger_append H N nowIso WriteFileFails citizenHash schemeName amt w =
     (let w1 = (if \<not> initialized (ledger w) then snd (verifyIntegrity H w) else w);
          prevHash = lastHash (ledger w1);
          currentHash = H (nowIso @ citizenHash @ schemeName @ N amt @ prevHash);
          old = (case ledger_file (ledger w) of None \<Rightarrow> [] | Some content \<Rightarrow> content)
      in (Inl WriteError,
          w1\<lparr>ledger := (ledger w1)
               \<lparr>ledger_file := Some (old @ nowIso @ ''|'' @ citizenHash @ ''|'' @ schemeName
                                        @ ''|'' @ N amt @ ''|'' @ prevHash @ ''|''
                                        @ currentHash @ [CHR 0x0A]),
                lastHash := currentHash\<rparr>\<rparr>))"
  by (simp add: ledger_append_def Let_def entry_line_def sha256_def verify_keeps)

lemma append_ok_state:
  "budget (state (snd (ledger_append H N nowIso NoFault c s a w))) = budget (state w)"
  "status (state w) = Frozen \<Longrightarrow>
     status (state (snd (ledger_append H N nowIso NoFault c s a w))) = Frozen"
  "\<exists>h. fst (ledger_append H N nowIso NoFault c s a w) = Inr (nowIso, h)"
  by (auto simp: ledger_append_def Let_def verify_keeps)

text \<open>Past the five gates, \<open>validate\<close> is its approval block.\<close>

lemma validate_pass:
  assumes "gates_pass H registryMap e citizenId schemeName w r"
  shows "validate H N registryMap e citizenId schemeName w =
     (case ledger_append H N (now_iso e) (fault e) (hashCitizenId H citizenId) schemeName
             (scheme_amount r)
             (w\<lparr>state := incrTx (deduct (scheme_amount r) (state w)),
                processedHashes := insert (hashCitizenId H citizenId) (processedHashes w)\<rparr>) of
        (Inl err, w3) \<Rightarrow> (Inl err, w3)
      | (Inr ledgerEntry, w3) \<Rightarrow>
          (Inr \<lparr>approved = True, gate = Approved, reason = AllPassed,
                amount = Some (scheme_amount r), scheme = Some schemeName,
                timestamp = Some (fst ledgerEntry)\<rparr>, w3))"
  using assms
  by (simp add: gates_pass_def eligible_def validate_def getState_def Let_def)

text \<open>\<open>gates_pass\<close> is exactly the condition under which a run without a fault approves.\<close>

lemma gates_pass_iff_approved:
  "(\<exists>r. gates_pass H registryMap e citizenId schemeName w r) \<longleftrightarrow>
   (\<exists>d. fst (validate H N registryMap (e\<lparr>fault := NoFault\<rparr>) citizenId schemeName w) = Inr d
        \<and> approved d)"
proof
  assume "\<exists>r. gates_pass H registryMap e citizenId schemeName w r"
  then obtain r where "gates_pass H registryMap e citizenId schemeName w r" ..
  then have g: "gates_pass H registryMap (e\<lparr>fault := NoFault\<rparr>) citizenId schemeName w r"
    by (simp add: gates_pass_def)
  obtain h where h: "fst (ledger_append H N (now_iso e) NoFault (hashCitizenId H citizenId)
      schemeName (scheme_amount r)
      (w\<lparr>state := incrTx (deduct (scheme_amount r) (state w)),
         processedHashes := insert (hashCitizenId H citizenId) (processedHashes w)\<rparr>))
      = Inr (now_iso e, h)"
    using append_ok_state(3) by blast
  show "\<exists>d. fst (validate H N registryMap (e\<lparr>fault := NoFault\<rparr>) citizenId schemeName w) = Inr d
        \<and> approved d"
    unfolding validate_pass [OF g] using h by (auto simp: split_beta split: sum.splits)
next
  assume "\<exists>d. fst (validate H N registryMap (e\<lparr>fault := NoFault\<rparr>) citizenId schemeName w) = Inr d
        \<and> approved d"
  then show "\<exists>r. gates_pass H registryMap e citizenId schemeName w r"
    by (cases "status (state w)")
       (auto simp: validate_def gates_pass_def eligible_def getState_def Let_def reject_def
                   frequency_gate_def
             split: if_splits option.splits)
qed

section \<open>The demo inputs, evaluated\<close>

lemma demo_number_5000: "demo_number 5000 = ''5000''"
  by (simp add: demo_number_def digits.simps digit_char_def)

lemma genesis_text:
  "GENESIS_HASH = ''0000000000000000000000000000000000000000000000000000000000000000''"
  by (simp add: GENESIS_HASH_def numeral_eq_Suc)

lemma demo_token: "hashCitizenId demo_hash demo_id = ''70''"
  by code_simp

lemma lower_Active: "toLowerCase ''Active'' = ''active''"
  by code_simp

lemma trim_Food: "trim ''Food'' = ''Food''"
  by code_simp

lemma demo_eligible: "eligible (demo_record ''Food'' a) ''Food''"
  by (simp add: eligible_def demo_record_def lower_Active trim_Food)

lemma demo_lookup: "lookup (demo_registry r) ''70'' = Some r"
  by (simp add: lookup_def demo_registry_def demo_token)

lemma demo_gates_pass:
  assumes "0 < a" and "a \<le> b"
  shows "gates_pass demo_hash (demo_registry (demo_record ''Food'' a)) (demo_env f) demo_id ''Food''
     (demo_world (initial_state\<lparr>budget := b\<rparr>) {}) (demo_record ''Food'' a)"
  using assms
  by (simp add: gates_pass_def demo_token demo_lookup demo_eligible demo_world_def
        initial_state_def frequency_gate_def)
     (simp add: demo_record_def)

lemma demo_other_token: "hashCitizenId demo_hash demo_other_id = ''41''"
  by code_simp

lemma demo_lookup2:
  "lookup (demo_registry2 r) ''70'' = Some r" "lookup (demo_registry2 r) ''41'' = Some r"
  by (simp_all add: lookup_def demo_registry2_def demo_registry_def demo_token demo_other_token)

lemma validate_pass_decision:
  assumes "gates_pass H registryMap e citizenId schemeName w r" and "fault e = NoFault"
  shows "fst (validate H N registryMap e citizenId schemeName w) =
           Inr \<lparr>approved = True, gate = Approved, reason = AllPassed,
                amount = Some (scheme_amount r), scheme = Some schemeName,
                timestamp = Some (now_iso e)\<rparr>"
proof -
  let ?a = "ledger_append H N (now_iso e) NoFault (hashCitizenId H citizenId) schemeName
              (scheme_amount r)
              (w\<lparr>state := incrTx (deduct (scheme_amount r) (state w)),
                 processedHashes := insert (hashCitizenId H citizenId) (processedHashes w)\<rparr>)"
  obtain h where "fst ?a = Inr (now_iso e, h)"
    using append_ok_state(3) by blast
  then show ?thesis
    unfolding validate_pass [OF assms(1)] assms(2)
    by (cases ?a) (auto split: sum.splits)
qed

lemma demo_gates_pass2:
  "gates_pass demo_hash (demo_registry2 (demo_record ''Food'' 5000)) (demo_env f) demo_id ''Food''
     (demo_world initial_state {}) (demo_record ''Food'' 5000)"
  "gates_pass demo_hash (demo_registry2 (demo_record ''Food'' 5000)) (demo_env f) demo_other_id
     ''Food'' (demo_world initial_state {}) (demo_record ''Food'' 5000)"
  by (simp_all add: gates_pass_def demo_token demo_other_token demo_lookup2 demo_eligible
        demo_world_def initial_state_def INITIAL_BUDGET_def frequency_gate_def)
     (simp_all add: demo_record_def)

section \<open>Properties of the system state\<close>

text \<open>
  C8. Every operation of the system state (pause, resume, freeze, deduct with a positive
  amount, incrementTransactionCount) keeps the budget non-negative and does not raise it,
  does not lower the transaction count, and leaves a frozen status frozen.
\<close>

theorem state_op_invariant:
  assumes "0 \<le> budget s" and "positive_op x"
  shows "0 \<le> budget (apply_state_op x s) \<and> budget (apply_state_op x s) \<le> budget s
         \<and> transactionCount s \<le> transactionCount (apply_state_op x s)
         \<and> (status s = Frozen \<longrightarrow> status (apply_state_op x s) = Frozen)"
  using assms
  by (cases x) (auto simp: pause_def resume_def freeze_def deduct_def incrTx_def Let_def)

theorem state_op_invariant_witness:
  "0 \<le> budget initial_state \<and> positive_op (Deduct 5000)
   \<and> budget (apply_state_op (Deduct 5000) initial_state) = 995000
   \<and> 0 \<le> budget (apply_state_op (Deduct 5000) initial_state)
   \<and> budget (apply_state_op (Deduct 5000) initial_state) \<le> budget initial_state
   \<and> status (apply_state_op Resume (freeze initial_state)) = Frozen"
  using state_op_invariant [of initial_state "Deduct 5000"]
        state_op_invariant [of "freeze initial_state" Resume]
  by (simp add: initial_state_def INITIAL_BUDGET_def deduct_def freeze_def resume_def Let_def)

section \<open>Claims about the validator\<close>

text \<open>
  C1, as amended. For every claim whose five gates all pass, if a write of the ledger
  append fails, \<open>validate\<close> ends with the error and returns no decision; the budget
  stays deducted, the transaction count stays incremented and the token stays in the
  replay set. When the failing write is the append of the entry line, the ledger file
  and its stored digest are as before. When it is the write of the digest that follows,
  the stored digest is as before but the ledger file already holds the new line.
\<close>

theorem write_failure_keeps_mutations:
  assumes "gates_pass H registryMap e citizenId schemeName w r"
    and "fault e \<noteq> NoFault"
  shows "fst (validate H N registryMap e citizenId schemeName w) = Inl WriteError
       \<and> budget (state (snd (validate H N registryMap e citizenId schemeName w)))
           = budget (deduct (scheme_amount r) (state w))
       \<and> transactionCount (state (snd (validate H N registryMap e citizenId schemeName w)))
           = transactionCount (state w) + 1
       \<and> processedHashes (snd (validate H N registryMap e citizenId schemeName w))
           = insert (hashCitizenId H citizenId) (processedHashes w)
       \<and> meta_file (ledger (snd (validate H N registryMap e citizenId schemeName w)))
           = meta_file (ledger w)
       \<and> ledger_file (ledger (snd (validate H N registryMap e citizenId schemeName w)))
           = (if fault e = AppendFileFails then ledger_file (ledger w)
              else
                let prevHash = lastHash (ledger (if initialized (ledger w) then w
                                                 else snd (verifyIntegrity H w)));
                    currentHash = H (now_iso e @ hashCitizenId H citizenId @ schemeName
                                     @ N (scheme_amount r) @ prevHash);
                    old = (case ledger_file (ledger w) of None \<Rightarrow> [] | Some content \<Rightarrow> content)
                in Some (old @ now_iso e @ ''|'' @ hashCitizenId H citizenId @ ''|''
                           @ schemeName @ ''|'' @ N (scheme_amount r) @ ''|'' @ prevHash
                           @ ''|'' @ currentHash @ [CHR 0x0A]))"
proof (cases "fault e")
  case NoFault
  with assms(2) show ?thesis by simp
next
  case AppendFileFails
  show ?thesis
    unfolding validate_pass [OF assms(1)] AppendFileFails append_fails
    by (simp add: verify_keeps incrTx_def deduct_def freeze_def Let_def)
next
  case WriteFileFails
  show ?thesis
    unfolding validate_pass [OF assms(1)] WriteFileFails append_write_fails
    by (simp add: verify_keeps verify_ledger_only incrTx_def deduct_def freeze_def Let_def)
qed


theorem write_failure_keeps_mutations_witness:
  "gates_pass demo_hash (demo_registry (demo_record ''Food'' 5000)) (demo_env WriteFileFails)
     demo_id ''Food'' (demo_world (initial_state\<lparr>budget := 1000000\<rparr>) {})
     (demo_record ''Food'' 5000)
   \<and> fault (demo_env WriteFileFails) \<noteq> NoFault
   \<and> fault (demo_env AppendFileFails) \<noteq> NoFault
   \<and> fst (validate demo_hash demo_number (demo_registry (demo_record ''Food'' 5000))
            (demo_env WriteFileFails) demo_id ''Food''
            (demo_world (initial_state\<lparr>budget := 1000000\<rparr>) {})) = Inl WriteError
   \<and> budget (state (snd (validate demo_hash demo_number
            (demo_registry (demo_record ''Food'' 5000))
            (demo_env WriteFileFails) demo_id ''Food''
            (demo_world (initial_state\<lparr>budget := 1000000\<rparr>) {})))) = 995000
   \<and> ledger_file (ledger (snd (validate demo_hash demo_number
            (demo_registry (demo_record ''Food'' 5000))
            (demo_env WriteFileFails) demo_id ''Food''
            (demo_world (initial_state\<lparr>budget := 1000000\<rparr>) {})))) = Some demo_text
   \<and> meta_file (ledger (snd (validate demo_hash demo_number
            (demo_registry (demo_record ''Food'' 5000))
            (demo_env WriteFileFails) demo_id ''Food''
            (demo_world (initial_state\<lparr>budget := 1000000\<rparr>) {})))) = None
   \<and> fst (validate demo_hash demo_number (demo_registry (demo_record ''Food'' 5000))
            (demo_env AppendFileFails) demo_id ''Food''
            (demo_world (initial_state\<lparr>budget := 1000000\<rparr>) {})) = Inl WriteError
   \<and> budget (state (snd (validate demo_hash demo_number
            (demo_registry (demo_record ''Food'' 5000))
            (demo_env AppendFileFails) demo_id ''Food''
            (demo_world (initial_state\<lparr>budget := 1000000\<rparr>) {})))) = 995000
   \<and> ledger_file (ledger (snd (validate demo_hash demo_number
            (demo_registry (demo_record ''Food'' 5000))
            (demo_env AppendFileFails) demo_id ''Food''
            (demo_world (initial_state\<lparr>budget := 1000000\<rparr>) {})))) = None"
proof -
  have g: "gates_pass demo_hash (demo_registry (demo_record ''Food'' 5000)) (demo_env f)
     demo_id ''Food'' (demo_world (initial_state\<lparr>budget := 1000000\<rparr>) {})
     (demo_record ''Food'' 5000)" for f
    by (rule demo_gates_pass) simp_all
  have f: "fault (demo_env WriteFileFails) \<noteq> NoFault" "fault (demo_env AppendFileFails) \<noteq> NoFault"
    by (simp_all add: demo_env_def)
  have v: "lastHash (ledger (snd (verifyIntegrity demo_hash
              (demo_world (initial_state\<lparr>budget := 1000000\<rparr>) {})))) = GENESIS_HASH"
    by (simp add: verifyIntegrity_def demo_world_def fresh_ledger_def)
  from write_failure_keeps_mutations [OF g f(1), where N = demo_number]
       write_failure_keeps_mutations [OF g f(2), where N = demo_number] g f
  show ?thesis
    by (simp add: demo_token Let_def v)
       (simp add: demo_env_def demo_record_def demo_world_def fresh_ledger_def deduct_def
          initial_state_def demo_number_5000 demo_text_def genesis_text demo_hash_def
          hex_digit_def)
qed

text \<open>
  The claim as stated fails: a first claim whose five gates pass, with the append of the
  ledger line failing. The call ends with the error, and the budget has gone from
  1000000 to 995000, the count from 0 to 1, the token is in the replay set, and there is
  no ledger file.
\<close>

theorem write_failure_counterexample:
  "fst (validate demo_hash demo_number (demo_registry (demo_record ''Food'' 5000))
          (demo_env AppendFileFails) demo_id ''Food'' (demo_world initial_state {}))
     = Inl WriteError
   \<and> budget (state (demo_world initial_state {})) = 1000000
   \<and> budget (state (snd (validate demo_hash demo_number (demo_registry (demo_record ''Food'' 5000))
          (demo_env AppendFileFails) demo_id ''Food'' (demo_world initial_state {})))) = 995000
   \<and> transactionCount (state (snd (validate demo_hash demo_number (demo_registry (demo_record ''Food'' 5000))
          (demo_env AppendFileFails) demo_id ''Food'' (demo_world initial_state {})))) = 1
   \<and> processedHashes (snd (validate demo_hash demo_number (demo_registry (demo_record ''Food'' 5000))
          (demo_env AppendFileFails) demo_id ''Food'' (demo_world initial_state {}))) = {''70''}
   \<and> ledger_file (ledger (snd (validate demo_hash demo_number (demo_registry (demo_record ''Food'' 5000))
          (demo_env AppendFileFails) demo_id ''Food'' (demo_world initial_state {})))) = None"
proof -
  have w: "demo_world initial_state {} = demo_world (initial_state\<lparr>budget := 1000000\<rparr>) {}"
    by (simp add: initial_state_def INITIAL_BUDGET_def)
  have g: "gates_pass demo_hash (demo_registry (demo_record ''Food'' 5000))
     (demo_env AppendFileFails) demo_id ''Food'' (demo_world initial_state {})
     (demo_record ''Food'' 5000)"
    unfolding w by (rule demo_gates_pass) simp_all
  have f: "fault (demo_env AppendFileFails) = AppendFileFails"
    by (simp add: demo_env_def)
  show ?thesis
    unfolding validate_pass [OF g] f append_fails demo_token
    by (simp add: verifyIntegrity_def demo_world_def fresh_ledger_def initial_state_def
          INITIAL_BUDGET_def demo_record_def deduct_def incrTx_def Let_def)
qed

text \<open>
  C5, as amended. For every identity whose token is already in the replay set, while the
  system status is active \<open>validate\<close> rejects the claim at the Replay gate, whatever the
  registry holds for it; when the status is paused or frozen the System gate comes first
  and is the one reported. In each case budget, transaction count, ledger and replay set
  are unchanged.
\<close>

theorem replay_rejected:
  assumes "hashCitizenId H citizenId \<in> processedHashes w"
  shows "validate H N registryMap e citizenId schemeName w =
           (Inr (reject (if status (state w) = Active then Replay else System)
                        (case status (state w) of
                           Active \<Rightarrow> DuplicateClaim
                         | Paused \<Rightarrow> SystemPaused
                         | Frozen \<Rightarrow> SystemFrozen)), w)"
  using assms by (cases "status (state w)") (simp_all add: validate_def getState_def Let_def)

theorem replay_rejected_witness:
  "hashCitizenId demo_hash demo_id \<in> processedHashes (demo_world initial_state {''70''})
   \<and> validate demo_hash demo_number Map.empty (demo_env NoFault) demo_id ''Food''
         (demo_world initial_state {''70''})
       = (Inr (reject Replay DuplicateClaim), demo_world initial_state {''70''})"
  using replay_rejected [where H = demo_hash and N = demo_number and citizenId = demo_id
                           and w = "demo_world initial_state {''70''}"
                           and registryMap = Map.empty and e = "demo_env NoFault"
                           and schemeName = "''Food''"]
  by (simp add: demo_token demo_world_def initial_state_def)

text \<open>
  The claim as stated fails: the identity was approved, the administrator paused the
  system, the identity is submitted again. The rejection names the System gate.
\<close>

theorem replay_behind_system_gate_counterexample:
  "hashCitizenId demo_hash demo_id \<in> processedHashes (demo_world (pause initial_state) {''70''})
   \<and> fst (validate demo_hash demo_number (demo_registry (demo_record ''Food'' 5000)) (demo_env NoFault)
            demo_id ''Food'' (demo_world (pause initial_state) {''70''}))
       = Inr (reject System SystemPaused)"
  by (simp add: demo_token validate_def getState_def Let_def demo_world_def pause_def
        initial_state_def)



text \<open>
  C7. For every claim that passes all five gates with the remaining budget exactly equal
  to the required amount, the writes of the ledger succeeding, the claim is approved,
  and afterwards the budget is 0 and the status is frozen.
\<close>

theorem approval_at_exact_budget:
  assumes "gates_pass H registryMap e citizenId schemeName w r"
    and "budget (state w) = scheme_amount r"
    and "fault e = NoFault"
  shows "fst (validate H N registryMap e citizenId schemeName w) =
           Inr \<lparr>approved = True, gate = Approved, reason = AllPassed,
                amount = Some (scheme_amount r), scheme = Some schemeName,
                timestamp = Some (now_iso e)\<rparr>
       \<and> budget (state (snd (validate H N registryMap e citizenId schemeName w))) = 0
       \<and> status (state (snd (validate H N registryMap e citizenId schemeName w))) = Frozen"
proof -
  let ?w2 = "w\<lparr>state := incrTx (deduct (scheme_amount r) (state w)),
               processedHashes := insert (hashCitizenId H citizenId) (processedHashes w)\<rparr>"
  let ?a = "ledger_append H N (now_iso e) NoFault (hashCitizenId H citizenId) schemeName
              (scheme_amount r) ?w2"
  obtain h where h: "fst ?a = Inr (now_iso e, h)"
    using append_ok_state(3) by blast
  have s: "budget (state ?w2) = 0" "status (state ?w2) = Frozen"
    using assms(2) by (simp_all add: incrTx_def deduct_def freeze_def Let_def)
  have "budget (state (snd ?a)) = 0" "status (state (snd ?a)) = Frozen"
    using s by (simp_all only: append_ok_state)
  with h show ?thesis
    unfolding validate_pass [OF assms(1)] assms(3)
    by (cases ?a) (auto split: sum.splits)
qed

theorem approval_at_exact_budget_witness:
  "gates_pass demo_hash (demo_registry (demo_record ''Food'' 5000)) (demo_env NoFault)
     demo_id ''Food'' (demo_world (initial_state\<lparr>budget := 5000\<rparr>) {})
     (demo_record ''Food'' 5000)
   \<and> budget (state (demo_world (initial_state\<lparr>budget := 5000\<rparr>) {}))
       = scheme_amount (demo_record ''Food'' 5000)
   \<and> fault (demo_env NoFault) = NoFault
   \<and> fst (validate demo_hash demo_number (demo_registry (demo_record ''Food'' 5000)) (demo_env NoFault)
            demo_id ''Food'' (demo_world (initial_state\<lparr>budget := 5000\<rparr>) {}))
       = Inr \<lparr>approved = True, gate = Approved, reason = AllPassed,
              amount = Some 5000, scheme = Some ''Food'',
              timestamp = Some ''2026-01-01T00:00:00.000Z''\<rparr>
   \<and> budget (state (snd (validate demo_hash demo_number (demo_registry (demo_record ''Food'' 5000))
            (demo_env NoFault) demo_id ''Food''
            (demo_world (initial_state\<lparr>budget := 5000\<rparr>) {})))) = 0
   \<and> status (state (snd (validate demo_hash demo_number (demo_registry (demo_record ''Food'' 5000))
            (demo_env NoFault) demo_id ''Food''
            (demo_world (initial_state\<lparr>budget := 5000\<rparr>) {})))) = Frozen"
proof -
  have g: "gates_pass demo_hash (demo_registry (demo_record ''Food'' 5000)) (demo_env NoFault)
     demo_id ''Food'' (demo_world (initial_state\<lparr>budget := 5000\<rparr>) {})
     (demo_record ''Food'' 5000)"
    by (rule demo_gates_pass) simp_all
  have b: "budget (state (demo_world (initial_state\<lparr>budget := 5000\<rparr>) {}))
       = scheme_amount (demo_record ''Food'' 5000)"
    by (simp add: demo_world_def demo_record_def)
  have f: "fault (demo_env NoFault) = NoFault"
    by (simp add: demo_env_def)
  show ?thesis
    using approval_at_exact_budget [OF g b f] g b f
    by (simp add: demo_env_def demo_record_def)
qed


text \<open>
  C9, as amended. The decision object has the fields approved, gate, reason and, on
  approval, amount, scheme and timestamp, and no field for the raw identity or its
  token. Its values do not depend on the identity beyond the two lookups made with the
  token, in the replay set and in the registry: two identities that agree on both get
  the same decision. On approval the decision carries the submitted scheme, the amount
  of the registry record and the clock text of the append; a rejection carries no
  amount, scheme or timestamp. The submitted scheme and the texts of the registry record
  are written into the reason as they are.
\<close>

theorem decision_independent_of_identity:
  assumes "hashCitizenId H c1 \<in> processedHashes w \<longleftrightarrow> hashCitizenId H c2 \<in> processedHashes w"
    and "lookup registryMap (hashCitizenId H c1) = lookup registryMap (hashCitizenId H c2)"
  shows "fst (validate H N registryMap e c1 schemeName w)
           = fst (validate H N registryMap e c2 schemeName w)
       \<and> (case fst (validate H N registryMap e c1 schemeName w) of
             Inl err \<Rightarrow> True
           | Inr d \<Rightarrow>
               if approved d
               then gate d = Approved \<and> reason d = AllPassed \<and> scheme d = Some schemeName
                    \<and> timestamp d = Some (now_iso e)
                    \<and> (\<exists>r. lookup registryMap (hashCitizenId H c1) = Some r
                            \<and> amount d = Some (scheme_amount r))
               else amount d = None \<and> scheme d = None \<and> timestamp d = None)"
proof
  show "fst (validate H N registryMap e c1 schemeName w)
      = fst (validate H N registryMap e c2 schemeName w)"
    using assms
    by (auto simp: validate_def getState_def Let_def ledger_append_def split: option.splits)
  show "case fst (validate H N registryMap e c1 schemeName w) of
             Inl err \<Rightarrow> True
           | Inr d \<Rightarrow>
               if approved d
               then gate d = Approved \<and> reason d = AllPassed \<and> scheme d = Some schemeName
                    \<and> timestamp d = Some (now_iso e)
                    \<and> (\<exists>r. lookup registryMap (hashCitizenId H c1) = Some r
                            \<and> amount d = Some (scheme_amount r))
               else amount d = None \<and> scheme d = None \<and> timestamp d = None"
    by (auto simp: validate_def getState_def Let_def reject_def frequency_gate_def
          ledger_append_def
        split: option.splits)
qed

theorem decision_independent_of_identity_witness:
  "hashCitizenId demo_hash demo_id \<noteq> hashCitizenId demo_hash demo_other_id
   \<and> (hashCitizenId demo_hash demo_id \<in> processedHashes (demo_world initial_state {})
      \<longleftrightarrow> hashCitizenId demo_hash demo_other_id \<in> processedHashes (demo_world initial_state {}))
   \<and> lookup (demo_registry2 (demo_record ''Food'' 5000)) (hashCitizenId demo_hash demo_id)
       = lookup (demo_registry2 (demo_record ''Food'' 5000))
           (hashCitizenId demo_hash demo_other_id)
   \<and> fst (validate demo_hash demo_number (demo_registry2 (demo_record ''Food'' 5000))
            (demo_env NoFault) demo_id ''Food'' (demo_world initial_state {}))
     = fst (validate demo_hash demo_number (demo_registry2 (demo_record ''Food'' 5000))
            (demo_env NoFault) demo_other_id ''Food'' (demo_world initial_state {}))
   \<and> fst (validate demo_hash demo_number (demo_registry2 (demo_record ''Food'' 5000))
            (demo_env NoFault) demo_other_id ''Food'' (demo_world initial_state {}))
     = Inr \<lparr>approved = True, gate = Approved, reason = AllPassed, amount = Some 5000,
            scheme = Some ''Food'', timestamp = Some ''2026-01-01T00:00:00.000Z''\<rparr>"
proof -
  have t: "hashCitizenId demo_hash demo_id \<noteq> hashCitizenId demo_hash demo_other_id"
    by (simp add: demo_token demo_other_token)
  have m: "hashCitizenId demo_hash demo_id \<in> processedHashes (demo_world initial_state {})
      \<longleftrightarrow> hashCitizenId demo_hash demo_other_id \<in> processedHashes (demo_world initial_state {})"
    by (simp add: demo_world_def)
  have l: "lookup (demo_registry2 (demo_record ''Food'' 5000)) (hashCitizenId demo_hash demo_id)
       = lookup (demo_registry2 (demo_record ''Food'' 5000))
           (hashCitizenId demo_hash demo_other_id)"
    by (simp add: demo_token demo_other_token demo_lookup2)
  have f: "fault (demo_env NoFault) = NoFault"
    by (simp add: demo_env_def)
  have d: "fst (validate demo_hash demo_number (demo_registry2 (demo_record ''Food'' 5000))
            (demo_env NoFault) demo_other_id ''Food'' (demo_world initial_state {}))
     = Inr \<lparr>approved = True, gate = Approved, reason = AllPassed, amount = Some 5000,
            scheme = Some ''Food'', timestamp = Some ''2026-01-01T00:00:00.000Z''\<rparr>"
    by (simp add: validate_pass_decision [OF demo_gates_pass2(2) f])
       (simp add: demo_record_def demo_env_def)
  from decision_independent_of_identity [OF m l] t m l d
  show ?thesis by simp
qed

text \<open>
  The claim as stated fails: a request whose scheme field holds the digits of the
  identity itself. The record is eligible for another scheme, and the reason sent back
  quotes the submitted scheme, that is, the raw identity.
\<close>

lemma demo_route_input:
  "trim demo_id = demo_id" "list_all is_digit demo_id" "length demo_id = 12"
  "toLowerCase demo_id = demo_id" "toLowerCase ''Food'' = ''food''" "demo_id \<noteq> []"
  "''food'' \<noteq> demo_id"
  by code_simp+

theorem decision_echoes_identity_counterexample:
  "claim_route demo_hash demo_number (demo_registry (demo_record ''Food'' 5000)) (demo_env NoFault)
      demo_id demo_id (demo_world initial_state {})
     = (Inr (200, reject Eligibility (SchemeMismatch ''Food'' ''123456789012'')),
        demo_world initial_state {})
   \<and> demo_id = ''123456789012''"
proof -
  have v: "validate demo_hash demo_number (demo_registry (demo_record ''Food'' 5000)) (demo_env NoFault)
      demo_id demo_id (demo_world initial_state {})
     = (Inr (reject Eligibility (SchemeMismatch ''Food'' demo_id)), demo_world initial_state {})"
    by (simp add: validate_def getState_def Let_def demo_token demo_lookup demo_route_input)
       (simp add: demo_world_def initial_state_def demo_record_def lower_Active
          demo_route_input)
  show ?thesis
    by (simp add: claim_route_def demo_route_input v) (simp add: demo_id_def)
qed

section \<open>Claims about the ledger\<close>

text \<open>
  C10. If \<open>append\<close> is called while the ledger is not marked verified and the
  verification it runs fails (returning false and freezing the system), it still writes
  the new entry, the line of the six fields joined by the separator and ended by a line
  feed, with the cursor \<open>lastHash\<close> as it stands (the genesis hash when nothing was
  appended before in this process) as the previous hash, and then stores the digest of
  the new file: it returns its result as if the verification had passed.
\<close>

theorem append_ignores_failed_verification:
  assumes "\<not> initialized (ledger w)" and "fst (verifyIntegrity H w) = False"
  shows "\<exists>content. ledger_file (ledger w) = Some content \<and>
      ledger_append H N nowIso NoFault citizenHash schemeName amt w =
       (let prevHash = lastHash (ledger w);
            currentHash = H (nowIso @ citizenHash @ schemeName @ N amt @ prevHash);
            newText = content @ nowIso @ ''|'' @ citizenHash @ ''|'' @ schemeName @ ''|''
                        @ N amt @ ''|'' @ prevHash @ ''|'' @ currentHash @ [CHR 0x0A]
        in (Inr (nowIso, currentHash),
            w\<lparr>state := freeze (state w),
              ledger := (ledger w)\<lparr>lastHash := currentHash, ledger_file := Some newText,
                                    meta_file := Some (FileHash (H newText))\<rparr>\<rparr>))"
  using assms
  by (auto simp: verifyIntegrity_def ledger_append_def Let_def computeFileHash_def saveMeta_def
                 sha256_def entry_line_def
           split: option.splits if_splits)

lemma demo_broken_file: "fst (verifyIntegrity demo_hash (fresh_world (Some ''x'') None)) = False"
  by code_simp

theorem append_ignores_failed_verification_witness:
  "\<not> initialized (ledger (fresh_world (Some ''x'') None))
   \<and> fst (verifyIntegrity demo_hash (fresh_world (Some ''x'') None)) = False
   \<and> lastHash (ledger (fresh_world (Some ''x'') None)) = GENESIS_HASH
   \<and> ledger_append demo_hash demo_number ''2026-01-01T00:00:00.000Z'' NoFault ''70'' ''Food''
        5000 (fresh_world (Some ''x'') None)
      = (Inr (''2026-01-01T00:00:00.000Z'', ''9a''),
         \<lparr>state = freeze initial_state,
          ledger = \<lparr>lastHash = ''9a'', initialized = False,
                    ledger_file = Some (''x'' @ demo_text),
                    meta_file = Some (FileHash ''22'')\<rparr>,
          processedHashes = {}\<rparr>)"
proof -
  have i: "\<not> initialized (ledger (fresh_world (Some ''x'') None))"
    by (simp add: fresh_world_def fresh_ledger_def)
  have l: "ledger_file (ledger (fresh_world (Some ''x'') None)) = Some ''x''"
    "lastHash (ledger (fresh_world (Some ''x'') None)) = GENESIS_HASH"
    by (simp_all add: fresh_world_def fresh_ledger_def)
  from append_ignores_failed_verification [OF i demo_broken_file,
            where N = demo_number and nowIso = "''2026-01-01T00:00:00.000Z''"
              and citizenHash = "''70''" and schemeName = "''Food''" and amt = 5000]
  have "ledger_append demo_hash demo_number ''2026-01-01T00:00:00.000Z'' NoFault ''70'' ''Food''
        5000 (fresh_world (Some ''x'') None)
      = (Inr (''2026-01-01T00:00:00.000Z'', ''9a''),
         \<lparr>state = freeze initial_state,
          ledger = \<lparr>lastHash = ''9a'', initialized = False,
                    ledger_file = Some (''x'' @ demo_text),
                    meta_file = Some (FileHash ''22'')\<rparr>,
          processedHashes = {}\<rparr>)"
    by (simp add: l Let_def demo_number_5000)
       (simp add: fresh_world_def fresh_ledger_def genesis_text demo_text_def demo_hash_def
          hex_digit_def)
  with i l(2) demo_broken_file show ?thesis by simp
qed

section \<open>The loop of verifyIntegrity against the chain condition\<close>

lemma six_fields: "length e = 6 \<Longrightarrow> take 5 e = [e ! 0, e ! 1, e ! 2, e ! 3, e ! 4]"
  by (auto simp: numeral_eq_Suc length_Suc_conv)

lemma spec_entry_ok_Suc: "spec_entry_ok H g (e # es) (Suc i) = spec_entry_ok H (e ! 5) es i"
  by (cases i) (simp_all add: spec_entry_ok_def)

lemma spec_chain_ok_Nil: "spec_chain_ok H g []"
  by (simp add: spec_chain_ok_def)

lemma spec_chain_ok_all:
  "spec_chain_ok H g es \<longleftrightarrow> (\<forall>i<length es. spec_entry_ok H g es i)"
  by (simp only: spec_chain_ok_def list_all_iff set_upt atLeastLessThan_iff) auto

lemma spec_chain_ok_Cons:
  "spec_chain_ok H g (e # es) \<longleftrightarrow> spec_entry_ok H g (e # es) 0 \<and> spec_chain_ok H (e ! 5) es"
proof -
  have "(\<forall>i<Suc (length es). spec_entry_ok H g (e # es) i) \<longleftrightarrow>
        spec_entry_ok H g (e # es) 0 \<and> (\<forall>i<length es. spec_entry_ok H g (e # es) (Suc i))"
    by (metis less_Suc_eq_0_disj Suc_less_eq zero_less_Suc)
  then show ?thesis
    by (simp add: spec_chain_ok_all spec_entry_ok_Suc)
qed

lemma spec_final_hash_Cons: "spec_final_hash g (e # es) = spec_final_hash (e ! 5) es"
  by (simp add: spec_final_hash_def)

lemma walk_chain_step:
  "walk_chain H (l # ls) g =
     (if spec_entry_ok H g (entry_fields l # es) 0 then walk_chain H ls (entry_fields l ! 5)
      else None)"
proof (cases "length (entry_fields l) = 6")
  case False
  then show ?thesis
    by (simp add: spec_entry_ok_def entry_fields_def)
next
  case True
  then have "take 5 (entry_fields l) =
      [entry_fields l ! 0, entry_fields l ! 1, entry_fields l ! 2, entry_fields l ! 3,
       entry_fields l ! 4]"
    by (rule six_fields)
  with True show ?thesis
    by (auto simp: spec_entry_ok_def sha256_def Let_def entry_fields_def)
qed

lemma walk_chain_spec:
  "walk_chain H ls g =
     (if spec_chain_ok H g (map entry_fields ls)
      then Some (spec_final_hash g (map entry_fields ls)) else None)"
proof (induction ls arbitrary: g)
  case Nil
  show ?case by (simp add: spec_chain_ok_Nil spec_final_hash_def)
next
  case (Cons l ls)
  show ?case
    unfolding walk_chain_step [of H l ls g "map entry_fields ls"] list.map
      spec_chain_ok_Cons spec_final_hash_Cons Cons.IH
    by simp
qed

section \<open>Runs of appends\<close>

lemma append_sets_digest:
  "\<exists>c. ledger_file (ledger (snd (ledger_append H N nowIso NoFault citizenHash schemeName amt w)))
         = Some c
     \<and> meta_file (ledger (snd (ledger_append H N nowIso NoFault citizenHash schemeName amt w)))
         = Some (FileHash (H c))"
  by (simp add: ledger_append_def Let_def computeFileHash_def saveMeta_def sha256_def)

lemma run_appends_digest:
  assumes "es \<noteq> [] \<or> (\<exists>c. ledger_file (ledger w) = Some c \<and> meta_file (ledger w) = Some (FileHash (H c)))"
  shows "\<exists>c. ledger_file (ledger (run_appends H N es w)) = Some c
           \<and> meta_file (ledger (run_appends H N es w)) = Some (FileHash (H c))"
  using assms
proof (induction es arbitrary: w)
  case Nil
  then show ?case by simp
next
  case (Cons e es)
  obtain n c s a where e: "e = (n, c, s, a)" by (cases e) auto
  show ?case
    unfolding e run_appends.simps
    by (rule Cons.IH) (use append_sets_digest in blast)
qed

lemma demo_ledger:
  "ledger (run_appends demo_hash demo_number demo_entries (fresh_world None None)) =
     \<lparr>lastHash = ''9a'', initialized = True, ledger_file = Some demo_text,
      meta_file = Some (FileHash ''aa'')\<rparr>"
  by (simp add: demo_entries_def ledger_append_def verifyIntegrity_def fresh_world_def
        fresh_ledger_def Let_def demo_number_5000 genesis_text sha256_def entry_line_def
        computeFileHash_def saveMeta_def demo_text_def demo_hash_def hex_digit_def)

lemma demo_state:
  "state (run_appends demo_hash demo_number demo_entries (fresh_world None None)) = initial_state"
  by (simp add: demo_entries_def ledger_append_def verifyIntegrity_def fresh_world_def
        fresh_ledger_def Let_def)

lemma demo_lines: "read_lines demo_text = [butlast demo_text]"
  by (simp add: read_lines_def demo_text_def trim_def is_space_def)

lemma demo_fields:
  "entry_fields (butlast demo_text) = [''2026-01-01T00:00:00.000Z'', ''70'', ''Food'', ''5000'', GENESIS_HASH, ''9a'']"
  by (simp add: entry_fields_def demo_text_def genesis_text)

lemma demo_chain_ok:
  "spec_chain_ok demo_hash GENESIS_HASH
     [[''2026-01-01T00:00:00.000Z'', ''70'', ''Food'', ''5000'', GENESIS_HASH, ''9a'']]"
  by (simp add: spec_chain_ok_def spec_entry_ok_def)
     (simp add: genesis_text demo_hash_def hex_digit_def)

text \<open>
  C3, as amended. When the ledger file does not exist, \<open>verifyIntegrity\<close> returns true
  at once: it compares no digest, freezes nothing and leaves the cursor as it is, only
  marking the ledger verified. When the file exists and the meta file yields a value
  (one that is not null or otherwise falsy), it first compares the digest of the file
  with the \<open>fileHash\<close> of that value and on a mismatch, which includes a value without a
  \<open>fileHash\<close> string, freezes the system and returns false without walking the chain.
  Otherwise (the digests agree, or the meta file is absent, does not parse or holds a
  falsy value) it walks the non-blank lines from the genesis hash, checking the field
  count, the previous hash against the running hash and the current hash against the
  recomputed one; it freezes and returns false when a line fails, and on success stores
  the final chain hash in the cursor and returns true.
\<close>

theorem verifyIntegrity_cases:
  "verifyIntegrity H w =
     (case ledger_file (ledger w) of
        None \<Rightarrow> (True, w\<lparr>ledger := (ledger w)\<lparr>initialized := True\<rparr>\<rparr>)
      | Some content \<Rightarrow>
          if (case loadMeta (ledger w) of
                None \<Rightarrow> False
              | Some NoFileHash \<Rightarrow> True
              | Some (FileHash stored) \<Rightarrow> stored \<noteq> H content)
          then (False, w\<lparr>state := freeze (state w)\<rparr>)
          else if spec_chain_ok H GENESIS_HASH (map entry_fields (read_lines content))
          then (True, w\<lparr>ledger := (ledger w)
                  \<lparr>lastHash := spec_final_hash GENESIS_HASH (map entry_fields (read_lines content)),
                   initialized := True\<rparr>\<rparr>)
          else (False, w\<lparr>state := freeze (state w)\<rparr>))"
  by (simp add: verifyIntegrity_def walk_chain_spec computeFileHash_def sha256_def Let_def
       split: option.splits meta.splits)

theorem verifyIntegrity_cases_witness:
  "verifyIntegrity demo_hash (fresh_world (Some demo_text) (Some (FileHash ''aa'')))
     = (True, \<lparr>state = initial_state,
               ledger = \<lparr>lastHash = ''9a'', initialized = True, ledger_file = Some demo_text,
                         meta_file = Some (FileHash ''aa'')\<rparr>,
               processedHashes = {}\<rparr>)
   \<and> verifyIntegrity demo_hash (fresh_world (Some demo_text) None)
     = (True, \<lparr>state = initial_state,
               ledger = \<lparr>lastHash = ''9a'', initialized = True, ledger_file = Some demo_text,
                         meta_file = None\<rparr>,
               processedHashes = {}\<rparr>)
   \<and> verifyIntegrity demo_hash (fresh_world (Some demo_text) (Some (FileHash ''ab'')))
     = (False, \<lparr>state = freeze initial_state,
                ledger = fresh_ledger (Some demo_text) (Some (FileHash ''ab'')),
                processedHashes = {}\<rparr>)
   \<and> verifyIntegrity demo_hash (fresh_world (Some demo_text) (Some NoFileHash))
     = (False, \<lparr>state = freeze initial_state,
                ledger = fresh_ledger (Some demo_text) (Some NoFileHash),
                processedHashes = {}\<rparr>)
   \<and> verifyIntegrity demo_hash (fresh_world None (Some NoFileHash))
     = (True, \<lparr>state = initial_state,
               ledger = \<lparr>lastHash = GENESIS_HASH, initialized = True, ledger_file = None,
                         meta_file = Some NoFileHash\<rparr>,
               processedHashes = {}\<rparr>)"
proof -
  have h: "demo_hash demo_text = ''aa''"
    by (simp add: demo_text_def demo_hash_def hex_digit_def)
  show ?thesis
    using verifyIntegrity_cases
            [of demo_hash "fresh_world (Some demo_text) (Some (FileHash ''aa''))"]
          verifyIntegrity_cases [of demo_hash "fresh_world (Some demo_text) None"]
          verifyIntegrity_cases
            [of demo_hash "fresh_world (Some demo_text) (Some (FileHash ''ab''))"]
          verifyIntegrity_cases [of demo_hash "fresh_world (Some demo_text) (Some NoFileHash)"]
          verifyIntegrity_cases [of demo_hash "fresh_world None (Some NoFileHash)"]
    by (simp add: fresh_world_def fresh_ledger_def loadMeta_def h demo_lines demo_chain_ok
          spec_final_hash_def demo_fields)
qed

text \<open>
  The claim as stated fails: the process has appended one entry, so that the stored
  digest is \<open>aa\<close> and the cursor \<open>9a\<close>, and the ledger file is then removed. The digest
  recomputed for the missing file is the genesis hash and differs from the stored one,
  yet \<open>verifyIntegrity\<close> returns true, the status stays active, and the cursor stays
  \<open>9a\<close> instead of the genesis hash of the empty chain.
\<close>

theorem verifyIntegrity_missing_file_counterexample:
  "loadMeta (ledger ((run_appends demo_hash demo_number demo_entries (fresh_world None None))
        \<lparr>ledger := (ledger (run_appends demo_hash demo_number demo_entries (fresh_world None None)))
                     \<lparr>ledger_file := None\<rparr>\<rparr>)) = Some (FileHash ''aa'')
   \<and> computeFileHash demo_hash (ledger ((run_appends demo_hash demo_number demo_entries (fresh_world None None))
        \<lparr>ledger := (ledger (run_appends demo_hash demo_number demo_entries (fresh_world None None)))
                     \<lparr>ledger_file := None\<rparr>\<rparr>)) = GENESIS_HASH
   \<and> fileHash_differs (FileHash ''aa'') GENESIS_HASH
   \<and> fst (verifyIntegrity demo_hash ((run_appends demo_hash demo_number demo_entries (fresh_world None None))
        \<lparr>ledger := (ledger (run_appends demo_hash demo_number demo_entries (fresh_world None None)))
                     \<lparr>ledger_file := None\<rparr>\<rparr>)) = True
   \<and> status (state (snd (verifyIntegrity demo_hash
        ((run_appends demo_hash demo_number demo_entries (fresh_world None None))
        \<lparr>ledger := (ledger (run_appends demo_hash demo_number demo_entries (fresh_world None None)))
                     \<lparr>ledger_file := None\<rparr>\<rparr>)))) = Active
   \<and> lastHash (ledger (snd (verifyIntegrity demo_hash
        ((run_appends demo_hash demo_number demo_entries (fresh_world None None))
        \<lparr>ledger := (ledger (run_appends demo_hash demo_number demo_entries (fresh_world None None)))
                     \<lparr>ledger_file := None\<rparr>\<rparr>)))) = ''9a''
   \<and> spec_final_hash GENESIS_HASH [] = GENESIS_HASH
   \<and> ''9a'' \<noteq> GENESIS_HASH"
  by (simp add: demo_ledger demo_state verifyIntegrity_def loadMeta_def computeFileHash_def
        spec_final_hash_def initial_state_def)
     (simp add: genesis_text)

text \<open>
  C2. For every ledger file left by a run of one or more appends, with the digest they
  stored, changing one character of the file makes \<open>verifyIntegrity\<close> return false and
  leaves the system frozen, provided the digest of the changed text differs from the
  digest of the original (the digest function is a parameter; for SHA-256 that is its
  collision resistance). The state in memory at the time of the check is arbitrary.
\<close>

theorem single_character_change_detected:
  assumes "es \<noteq> []"
    and "ledger_file (ledger (run_appends H N es w0)) = Some c"
    and "i < length c" and "x \<noteq> c ! i"
    and "H (c[i := x]) \<noteq> H c"
    and "ledger_file (ledger w) = Some (c[i := x])"
    and "meta_file (ledger w) = meta_file (ledger (run_appends H N es w0))"
  shows "fst (verifyIntegrity H w) = False
       \<and> status (state (snd (verifyIntegrity H w))) = Frozen"
proof -
  from run_appends_digest [where es = es and H = H and N = N and w = w0] assms(1,2)
  have "meta_file (ledger (run_appends H N es w0)) = Some (FileHash (H c))" by auto
  with assms(5,6,7) show ?thesis
    by (simp add: verifyIntegrity_def loadMeta_def computeFileHash_def sha256_def Let_def
          freeze_def)
qed

theorem single_character_change_detected_witness:
  "demo_entries \<noteq> []
   \<and> ledger_file (ledger (run_appends demo_hash demo_number demo_entries (fresh_world None None)))
       = Some demo_text
   \<and> 0 < length demo_text \<and> CHR ''3'' \<noteq> demo_text ! 0
   \<and> demo_hash (demo_text[0 := CHR ''3'']) \<noteq> demo_hash demo_text
   \<and> ledger_file (ledger (fresh_world (Some (demo_text[0 := CHR ''3''])) (Some (FileHash ''aa''))))
       = Some (demo_text[0 := CHR ''3''])
   \<and> meta_file (ledger (fresh_world (Some (demo_text[0 := CHR ''3''])) (Some (FileHash ''aa''))))
       = meta_file (ledger (run_appends demo_hash demo_number demo_entries (fresh_world None None)))
   \<and> fst (verifyIntegrity demo_hash
            (fresh_world (Some (demo_text[0 := CHR ''3''])) (Some (FileHash ''aa'')))) = False
   \<and> status (state (snd (verifyIntegrity demo_hash
            (fresh_world (Some (demo_text[0 := CHR ''3''])) (Some (FileHash ''aa'')))))) = Frozen"
proof -
  have 1: "demo_entries \<noteq> []"
    by (simp add: demo_entries_def)
  have 2: "ledger_file (ledger (run_appends demo_hash demo_number demo_entries (fresh_world None None)))
       = Some demo_text"
    by (simp add: demo_ledger)
  have 3: "0 < length demo_text" and 4: "CHR ''3'' \<noteq> demo_text ! 0"
    by (simp_all add: demo_text_def)
  have 5: "demo_hash (demo_text[0 := CHR ''3'']) \<noteq> demo_hash demo_text"
    by (simp add: demo_text_def demo_hash_def hex_digit_def)
  have 6: "ledger_file (ledger (fresh_world (Some (demo_text[0 := CHR ''3''])) (Some (FileHash ''aa''))))
       = Some (demo_text[0 := CHR ''3''])"
    by (simp add: fresh_world_def fresh_ledger_def)
  have 7: "meta_file (ledger (fresh_world (Some (demo_text[0 := CHR ''3''])) (Some (FileHash ''aa''))))
       = meta_file (ledger (run_appends demo_hash demo_number demo_entries (fresh_world None None)))"
    by (simp add: demo_ledger) (simp add: fresh_world_def fresh_ledger_def)
  from single_character_change_detected [OF 1 2 3 4 5 6 7] 1 2 3 4 5 6 7
  show ?thesis by simp
qed

section \<open>Reading back what the ledger writes\<close>

subsection \<open>Splitting and trimming\<close>

lemma split_js_none: "d \<notin> set s \<Longrightarrow> split_js d s = [s]"
  by (induction s) auto

lemma split_js_first: "d \<notin> set a \<Longrightarrow> split_js d (a @ d # b) = a # split_js d b"
  by (induction a) auto

lemma split_js_lines:
  "\<forall>l\<in>set ls. CHR 0x0A \<notin> set l \<Longrightarrow> split_js (CHR 0x0A) (ledger_lines ls) = ls @ [[]]"
proof (induction ls)
  case Nil
  show ?case by (simp add: ledger_lines_def)
next
  case (Cons l ls)
  then have "split_js (CHR 0x0A) (ledger_lines ls) = ls @ [[]]" by simp
  moreover have "ledger_lines (l # ls) = l @ CHR 0x0A # ledger_lines ls"
    by (simp add: ledger_lines_def)
  ultimately show ?case
    using Cons.prems by (simp add: split_js_first)
qed

lemma trim_tidy: "tidy_line l \<Longrightarrow> trim l = l"
proof -
  assume t: "tidy_line l"
  then obtain c cs where l: "l = c # cs" by (cases l) (auto simp: tidy_line_def)
  with t have 1: "dropWhile is_space l = l" by (simp add: tidy_line_def)
  from t have "rev l \<noteq> []" "\<not> is_space (hd (rev l))"
    by (simp_all add: tidy_line_def hd_rev)
  then have 2: "dropWhile is_space (rev l) = rev l"
    by (cases "rev l") auto
  show ?thesis by (simp add: trim_def 1 2)
qed

lemma trim_Nil: "trim [] = []"
  by (simp add: trim_def)

lemma read_lines_ledger_lines:
  assumes "list_all tidy_line ls"
  shows "read_lines (ledger_lines ls) = ls"
proof -
  from assms have t: "\<forall>l\<in>set ls. tidy_line l" by (simp add: list_all_iff)
  then have "split_js (CHR 0x0A) (ledger_lines ls) = ls @ [[]]"
    by (intro split_js_lines) (simp add: tidy_line_def)
  moreover have "map trim ls = ls"
    using t by (simp add: map_idI trim_tidy)
  moreover have "filter (\<lambda>l. l \<noteq> []) ls = ls"
    using t by (auto simp: filter_id_conv tidy_line_def)
  ultimately show ?thesis
    by (simp add: read_lines_def trim_Nil)
qed

lemma walk_chain_append:
  "walk_chain H (xs @ ys) g =
     (case walk_chain H xs g of None \<Rightarrow> None | Some h \<Rightarrow> walk_chain H ys h)"
  by (induction xs arbitrary: g) (simp_all add: Let_def)

lemma entry_fields_line:
  assumes "CHR ''|'' \<notin> set a" "CHR ''|'' \<notin> set b" "CHR ''|'' \<notin> set c" "CHR ''|'' \<notin> set d"
    "CHR ''|'' \<notin> set p" "CHR ''|'' \<notin> set h"
  shows "split_js (CHR ''|'') (a @ ''|'' @ b @ ''|'' @ c @ ''|'' @ d @ ''|'' @ p @ ''|'' @ h)
       = [a, b, c, d, p, h]"
  using assms by (simp add: split_js_first split_js_none)


subsection \<open>The characters of the fields the ledger writes itself\<close>

lemma hex_char:
  "c \<in> set ''0123456789abcdef'' \<Longrightarrow> c \<noteq> CHR ''|'' \<and> c \<noteq> CHR 0x0A \<and> \<not> is_space c"
  by (auto simp: is_space_def)

lemma iso_char:
  "c \<in> set ''0123456789-+:.TZ'' \<Longrightarrow> c \<noteq> CHR ''|'' \<and> c \<noteq> CHR 0x0A \<and> \<not> is_space c"
  by (auto simp: is_space_def)

lemma hex_string_plain:
  assumes "hex_string s"
  shows "plain s" and "s \<noteq> []" and "\<not> is_space (last s)"
proof -
  from assms have s: "s \<noteq> []" "set s \<subseteq> set ''0123456789abcdef''"
    by (simp_all add: hex_string_def)
  show "plain s" using s(2) hex_char unfolding plain_def by blast
  show "s \<noteq> []" by (rule s(1))
  have "last s \<in> set ''0123456789abcdef''" using s last_in_set by blast
  then show "\<not> is_space (last s)" using hex_char by blast
qed

lemma iso_text_plain:
  assumes "iso_text s"
  shows "plain s" and "s \<noteq> []" and "\<not> is_space (hd s)"
proof -
  from assms have s: "s \<noteq> []" "set s \<subseteq> set ''0123456789-+:.TZ''"
    by (simp_all add: iso_text_def)
  show "plain s" using s(2) iso_char unfolding plain_def by blast
  show "s \<noteq> []" by (rule s(1))
  have "hd s \<in> set ''0123456789-+:.TZ''" using s hd_in_set by blast
  then show "\<not> is_space (hd s)" using iso_char by blast
qed

lemma genesis_hex: "hex_string GENESIS_HASH"
  by (simp add: hex_string_def GENESIS_HASH_def)

lemma digit_char_in: "n < 10 \<Longrightarrow> digit_char n \<in> set ''0123456789''"
  unfolding digit_char_def by (rule nth_mem) simp

lemma digits_set: "set (digits n) \<subseteq> set ''0123456789''"
proof (induction n rule: digits.induct)
  case (1 n)
  show ?case
  proof (cases "n < 10")
    case True
    then show ?thesis
      using digit_char_in [of n] by (subst digits.simps) simp
  next
    case False
    have "n mod 10 < 10" by simp
    then have "digit_char (n mod 10) \<in> set ''0123456789''" by (rule digit_char_in)
    with False 1 show ?thesis
      by (subst digits.simps) simp
  qed
qed

lemma demo_number_plain: "plain (demo_number r)"
proof -
  have "c \<in> set ''0123456789'' \<Longrightarrow> c \<noteq> CHR ''|'' \<and> c \<noteq> CHR 0x0A" for c
    by auto
  then have "plain (digits n)" for n
    using digits_set [of n] unfolding plain_def by blast
  then show ?thesis
    by (simp add: demo_number_def)
qed

lemma walk_chain_hex:
  assumes "\<forall>s. hex_string (H s)" and "hex_string g" and "walk_chain H ls g = Some h"
  shows "hex_string h"
  using assms(2,3)
proof (induction ls arbitrary: g)
  case Nil
  then show ?case by simp
next
  case (Cons l ls)
  from Cons.prems(2)
  have "(if spec_entry_ok H g (entry_fields l # []) 0
         then walk_chain H ls (entry_fields l ! 5) else None) = Some h"
    by (simp only: walk_chain_step [of H l ls g "[]"])
  then have ok: "spec_entry_ok H g (entry_fields l # []) 0"
    and rest: "walk_chain H ls (entry_fields l ! 5) = Some h"
    by (simp_all split: if_splits)
  from ok have "hex_string (entry_fields l ! 5)"
    using assms(1) by (simp add: spec_entry_ok_def)
  then show ?case
    using rest by (rule Cons.IH)
qed


subsection \<open>Verification and appends keep a consistent ledger consistent\<close>

lemma verify_consistent:
  assumes "consistent H w"
  shows "fst (verifyIntegrity H w) = True"
    and "consistent H (snd (verifyIntegrity H w))"
    and "initialized (ledger (snd (verifyIntegrity H w)))"
proof -
  have "fst (verifyIntegrity H w) = True \<and> consistent H (snd (verifyIntegrity H w))
        \<and> initialized (ledger (snd (verifyIntegrity H w)))"
  proof (cases "ledger_file (ledger w)")
    case None
    with assms show ?thesis
      by (simp add: verifyIntegrity_def consistent_def)
  next
    case (Some content)
    with assms obtain ls h where c: "content = ledger_lines ls" "list_all tidy_line ls"
      "walk_chain H ls GENESIS_HASH = Some h"
      "meta_file (ledger w) = None \<or> meta_file (ledger w) = Some (FileHash (H content))"
      by (auto simp: consistent_def)
    have r: "read_lines content = ls"
      using c(1,2) by (simp add: read_lines_ledger_lines)
    have v: "verifyIntegrity H w =
        (True, w\<lparr>ledger := (ledger w)\<lparr>lastHash := h, initialized := True\<rparr>\<rparr>)"
      using Some c(3,4) r
      by (auto simp: verifyIntegrity_def loadMeta_def computeFileHash_def sha256_def Let_def)
    show ?thesis
      unfolding v using Some c by (auto simp: consistent_def)
  qed
  then show "fst (verifyIntegrity H w) = True"
    and "consistent H (snd (verifyIntegrity H w))"
    and "initialized (ledger (snd (verifyIntegrity H w)))"
    by simp_all
qed

lemma walk_chain_line:
  assumes "plain n" "plain c" "plain s" "plain a" "plain p" "plain (sha256 H [n, c, s, a, p])"
  shows "walk_chain H [n @ ''|'' @ c @ ''|'' @ s @ ''|'' @ a @ ''|'' @ p @ ''|''
                          @ sha256 H [n, c, s, a, p]] p
       = Some (sha256 H [n, c, s, a, p])"
proof -
  have "split_js (CHR ''|'') (n @ ''|'' @ c @ ''|'' @ s @ ''|'' @ a @ ''|'' @ p @ ''|''
                          @ sha256 H [n, c, s, a, p]) = [n, c, s, a, p, sha256 H [n, c, s, a, p]]"
    using assms by (intro entry_fields_line) (simp_all add: plain_def)
  then show ?thesis
    by (simp add: Let_def)
qed

lemma append_consistent:
  assumes hexH: "\<forall>s. hex_string (H s)"
    and plainN: "\<forall>a. plain (N a)"
    and w: "consistent H w"
    and e: "iso_text n" "plain c" "plain s"
  shows "consistent H (snd (ledger_append H N n NoFault c s a w))"
    and "initialized (ledger (snd (ledger_append H N n NoFault c s a w)))"
proof -
  define w1 where "w1 = (if \<not> initialized (ledger w) then snd (verifyIntegrity H w) else w)"
  have w1: "consistent H w1" "initialized (ledger w1)"
    using w verify_consistent(2,3) [OF w] by (auto simp: w1_def)
  define old where "old = (case ledger_file (ledger w1) of None \<Rightarrow> [] | Some content \<Rightarrow> content)"
  define p where "p = lastHash (ledger w1)"
  have "\<exists>ls. old = ledger_lines ls \<and> list_all tidy_line ls
           \<and> walk_chain H ls GENESIS_HASH = Some p"
  proof (cases "ledger_file (ledger w1)")
    case None
    with w1 have "old = ledger_lines [] \<and> list_all tidy_line []
           \<and> walk_chain H [] GENESIS_HASH = Some p"
      by (simp add: consistent_def old_def p_def ledger_lines_def)
    then show ?thesis by blast
  next
    case (Some content)
    with w1 show ?thesis
      by (auto simp: consistent_def old_def p_def)
  qed
  then obtain ls where ls: "old = ledger_lines ls" "list_all tidy_line ls"
    "walk_chain H ls GENESIS_HASH = Some p" by blast
  define cur where "cur = sha256 H [n, c, s, N a, p]"
  define l where "l = n @ ''|'' @ c @ ''|'' @ s @ ''|'' @ N a @ ''|'' @ p @ ''|'' @ cur"
  have hp: "hex_string p"
    using walk_chain_hex [OF hexH genesis_hex ls(3)] .
  have hc: "hex_string cur"
    using hexH by (simp add: cur_def sha256_def)
  note pl = iso_text_plain [OF e(1)] plainN [rule_format, of a] hex_string_plain [OF hp]
    hex_string_plain [OF hc]
  have line: "entry_line n c s (N a) p cur = l @ [CHR 0x0A]"
    by (simp add: entry_line_def l_def)
  have tidy: "tidy_line l"
    using pl e(2,3) by (simp add: tidy_line_def l_def plain_def)
  have step: "walk_chain H [l] p = Some cur"
    unfolding l_def cur_def
    using pl e(2,3) by (intro walk_chain_line) (simp_all add: cur_def)
  have chain: "walk_chain H (ls @ [l]) GENESIS_HASH = Some cur"
    by (simp only: walk_chain_append ls(3) option.case step)
  have joined: "old @ l @ [CHR 0x0A] = ledger_lines (ls @ [l])"
    by (simp add: ls(1) ledger_lines_def)
  have a: "snd (ledger_append H N n NoFault c s a w) =
      w1\<lparr>ledger := (ledger w1)\<lparr>ledger_file := Some (ledger_lines (ls @ [l])), lastHash := cur,
                                meta_file := Some (FileHash (H (ledger_lines (ls @ [l]))))\<rparr>\<rparr>"
  proof -
    have curH: "H (n @ c @ s @ N a @ p) = cur"
      by (simp add: cur_def sha256_def)
    show ?thesis
      by (simp add: ledger_append_def Let_def w1_def [symmetric] p_def [symmetric]
            old_def [symmetric] sha256_def curH line joined computeFileHash_def saveMeta_def)
  qed
  show "consistent H (snd (ledger_append H N n NoFault c s a w))"
    unfolding a consistent_def
    using ls(2) tidy chain by auto
  show "initialized (ledger (snd (ledger_append H N n NoFault c s a w)))"
    unfolding a using w1(2) by simp
qed

lemma run_appends_consistent:
  assumes "\<forall>s. hex_string (H s)" and "\<forall>a. plain (N a)"
    and "consistent H w" and "list_all clean_entry es"
  shows "consistent H (run_appends H N es w)"
  using assms(3,4)
proof (induction es arbitrary: w)
  case Nil
  then show ?case by simp
next
  case (Cons e es)
  obtain n c s a where e: "e = (n, c, s, a)" by (cases e) auto
  with Cons.prems have "consistent H (snd (ledger_append H N n NoFault c s a w))"
    by (intro append_consistent(1) [OF assms(1,2)]) simp_all
  with Cons.prems show ?case
    unfolding e by (simp add: Cons.IH)
qed


lemma demo_hash_hex: "hex_string (demo_hash s)"
proof -
  define k where "k = (sum_list (map of_char s) mod 256 :: nat)"
  have d: "n < 16 \<Longrightarrow> hex_digit n \<in> set ''0123456789abcdef''" for n
    unfolding hex_digit_def by (rule nth_mem) simp
  have "k < 256" by (simp add: k_def)
  then have "k div 16 < 16" by simp
  then have 1: "hex_digit (k div 16) \<in> set ''0123456789abcdef''" by (rule d)
  have "k mod 16 < 16" by simp
  then have 2: "hex_digit (k mod 16) \<in> set ''0123456789abcdef''" by (rule d)
  have "demo_hash s = [hex_digit (k div 16), hex_digit (k mod 16)]"
    by (simp add: demo_hash_def k_def Let_def)
  with 1 2 show ?thesis
    by (simp only: hex_string_def list.set insert_subset empty_subsetI) simp
qed

lemma fresh_consistent: "consistent H (fresh_world None None)"
  by (simp add: consistent_def fresh_world_def fresh_ledger_def)

lemma demo_entries_clean: "list_all clean_entry demo_entries"
  by (simp add: demo_entries_def iso_text_def plain_def)

lemma bar_eligible: "eligible (demo_record ''Food|Health'' a) ''Food|Health''"
proof -
  have "trim ''Food|Health'' = ''Food|Health''"
    by code_simp
  then show ?thesis
    by (simp add: eligible_def demo_record_def lower_Active)
qed

lemma bar_gates_pass:
  "gates_pass demo_hash (demo_registry (demo_record ''Food|Health'' 5000)) (demo_env f) demo_id
     ''Food|Health'' (demo_world initial_state {}) (demo_record ''Food|Health'' 5000)"
  by (simp add: gates_pass_def demo_token demo_lookup bar_eligible demo_world_def
        initial_state_def INITIAL_BUDGET_def frequency_gate_def)
     (simp add: demo_record_def)

lemma bar_append:
  assumes "ledger w = fresh_ledger None None"
  shows "ledger_append demo_hash demo_number ''2026-01-01T00:00:00.000Z'' NoFault ''70'' ''Food|Health'' 5000 w
       = (Inr (''2026-01-01T00:00:00.000Z'', ''6c''), w\<lparr>ledger := bar_ledger\<rparr>)"
  using assms
  by (simp add: ledger_append_def verifyIntegrity_def fresh_ledger_def Let_def demo_number_5000
        genesis_text sha256_def entry_line_def computeFileHash_def saveMeta_def bar_text_def
        bar_ledger_def demo_hash_def hex_digit_def)

lemma bar_verify:
  assumes "ledger w = bar_ledger"
  shows "verifyIntegrity demo_hash w = (False, w\<lparr>state := freeze (state w)\<rparr>)"
proof -
  have h: "demo_hash bar_text = ''7b''"
    by (simp add: bar_text_def demo_hash_def hex_digit_def)
  have l: "read_lines bar_text = [butlast bar_text]"
    by (simp add: read_lines_def bar_text_def trim_def is_space_def)
  have f: "length (split_js (CHR ''|'') (butlast bar_text)) = 7"
    by (simp add: bar_text_def)
  show ?thesis
    using assms
    by (simp add: verifyIntegrity_def bar_ledger_def loadMeta_def computeFileHash_def sha256_def
          h l f Let_def)
qed


text \<open>
  C4 says that a run that only appends leaves a ledger that \<open>verifyIntegrity\<close> accepts.
  The code does not keep that promise when a scheme name holds the separator. Here the
  registry names the scheme \<open>Food|Health\<close>; on the empty ledger the verification
  succeeds, the claim is approved and its entry appended, and the next verification
  finds seven fields in the line that \<open>append\<close> wrote, returns false and freezes the
  system.
\<close>

theorem delimiter_in_scheme_breaks_chain:
  "fst (verifyIntegrity demo_hash (demo_world initial_state {})) = True
   \<and> fst (validate demo_hash demo_number (demo_registry (demo_record ''Food|Health'' 5000))
            (demo_env NoFault) demo_id ''Food|Health'' (demo_world initial_state {}))
       = Inr \<lparr>approved = True, gate = Approved, reason = AllPassed, amount = Some 5000,
              scheme = Some ''Food|Health'', timestamp = Some ''2026-01-01T00:00:00.000Z''\<rparr>
   \<and> ledger_file (ledger (snd (validate demo_hash demo_number
            (demo_registry (demo_record ''Food|Health'' 5000))
            (demo_env NoFault) demo_id ''Food|Health'' (demo_world initial_state {}))))
       = Some bar_text
   \<and> fst (verifyIntegrity demo_hash (snd (validate demo_hash demo_number
            (demo_registry (demo_record ''Food|Health'' 5000))
            (demo_env NoFault) demo_id ''Food|Health'' (demo_world initial_state {}))))
       = False
   \<and> status (state (snd (verifyIntegrity demo_hash (snd (validate demo_hash demo_number
            (demo_registry (demo_record ''Food|Health'' 5000))
            (demo_env NoFault) demo_id ''Food|Health'' (demo_world initial_state {}))))))
       = Frozen"
proof -
  let ?w2 = "(demo_world initial_state {})
      \<lparr>state := incrTx (deduct 5000 (state (demo_world initial_state {}))),
        processedHashes := insert ''70'' (processedHashes (demo_world initial_state {}))\<rparr>"
  have v: "validate demo_hash demo_number (demo_registry (demo_record ''Food|Health'' 5000))
            (demo_env NoFault) demo_id ''Food|Health'' (demo_world initial_state {})
      = (Inr \<lparr>approved = True, gate = Approved, reason = AllPassed, amount = Some 5000,
              scheme = Some ''Food|Health'', timestamp = Some ''2026-01-01T00:00:00.000Z''\<rparr>,
         ?w2\<lparr>ledger := bar_ledger\<rparr>)"
  proof -
    have l: "ledger ?w2 = fresh_ledger None None"
      by (simp add: demo_world_def)
    have r: "scheme_amount (demo_record ''Food|Health'' 5000) = 5000"
      by (simp add: demo_record_def)
    have e: "now_iso (demo_env NoFault) = ''2026-01-01T00:00:00.000Z''"
      "fault (demo_env NoFault) = NoFault"
      by (simp_all add: demo_env_def)
    show ?thesis
      by (simp only: validate_pass [OF bar_gates_pass] demo_token r e bar_append [OF l])
         simp
  qed
  have b: "ledger (?w2\<lparr>ledger := bar_ledger\<rparr>) = bar_ledger"
    by simp
  show ?thesis
    by (simp only: v snd_conv fst_conv bar_verify [OF b])
       (simp add: verifyIntegrity_def demo_world_def fresh_ledger_def bar_ledger_def freeze_def)
qed

section \<open>Append-only runs with clean fields keep the ledger verifiable\<close>

text \<open>
  The ledger is consistent when there is no file and the cursor is the genesis hash, or
  the file is a sequence of lines, each ended by a line feed, that the chain walk
  accepts, with the cursor at its end once verified and a stored digest that, if there
  is one, is the digest of the file. From a consistent ledger, with a digest that yields
  hex strings and number texts without separator or line feed, every run of appends
  whose clock texts are ISO texts and whose tokens and scheme names hold neither the
  separator nor a line feed is accepted by
  \<open>verifyIntegrity\<close> before and after the run, and the lines of the file satisfy the chain
  condition of the specification.
\<close>

theorem appends_keep_chain_valid:
  assumes "\<forall>s. hex_string (H s)" and "\<forall>a. plain (N a)"
    and "consistent H w" and "list_all clean_entry es"
  shows "fst (verifyIntegrity H w) = True
       \<and> fst (verifyIntegrity H (run_appends H N es w)) = True
       \<and> (case ledger_file (ledger (run_appends H N es w)) of
            None \<Rightarrow> es = []
          | Some content \<Rightarrow>
              spec_chain_ok H GENESIS_HASH (map entry_fields (read_lines content)))"
proof -
  let ?w' = "run_appends H N es w"
  have c: "consistent H ?w'"
    using assms by (rule run_appends_consistent)
  have 1: "fst (verifyIntegrity H w) = True"
    using assms(3) by (rule verify_consistent(1))
  have 2: "fst (verifyIntegrity H ?w') = True"
    using c by (rule verify_consistent(1))
  have 3: "case ledger_file (ledger ?w') of
            None \<Rightarrow> es = []
          | Some content \<Rightarrow>
              spec_chain_ok H GENESIS_HASH (map entry_fields (read_lines content))"
  proof (cases "ledger_file (ledger ?w')")
    case None
    then show ?thesis
      using run_appends_digest [where es = es and H = H and N = N and w = w] by auto
  next
    case (Some content)
    with c obtain ls h where "content = ledger_lines ls" "list_all tidy_line ls"
      "walk_chain H ls GENESIS_HASH = Some h"
      by (auto simp: consistent_def)
    then have "walk_chain H (read_lines content) GENESIS_HASH = Some h"
      by (simp add: read_lines_ledger_lines)
    then have "spec_chain_ok H GENESIS_HASH (map entry_fields (read_lines content))"
      by (simp add: walk_chain_spec split: if_splits)
    with Some show ?thesis by simp
  qed
  from 1 2 3 show ?thesis by simp
qed

theorem appends_keep_chain_valid_witness:
  "(\<forall>s. hex_string (demo_hash s)) \<and> (\<forall>a. plain (demo_number a))
   \<and> consistent demo_hash (fresh_world None None)
   \<and> list_all clean_entry demo_entries
   \<and> fst (verifyIntegrity demo_hash (fresh_world None None)) = True
   \<and> fst (verifyIntegrity demo_hash
            (run_appends demo_hash demo_number demo_entries (fresh_world None None))) = True
   \<and> spec_chain_ok demo_hash GENESIS_HASH (map entry_fields (read_lines demo_text))"
proof -
  have h: "\<forall>s. hex_string (demo_hash s)"
    by (simp add: demo_hash_hex)
  have n: "\<forall>a. plain (demo_number a)"
    by (simp add: demo_number_plain)
  from appends_keep_chain_valid [OF h n fresh_consistent demo_entries_clean]
    h n fresh_consistent [of demo_hash] demo_entries_clean
  show ?thesis
    by (simp add: demo_ledger)
qed

end
